theory Spec2Isabelle
  imports Complex_Main "HOL-Library.While_Combinator"
begin

section \<open>Numbers, constants and data model\<close>

text \<open>
  The level module computes with JavaScript numbers. They are modelled as \<^typ>\<open>real\<close>:
  every arithmetic operation is the exact one, so rounding of IEEE doubles, infinities
  and NaN are outside the model. (The timestep is exactly \<open>1 / 60\<close> and the hold sweep
  visits exactly \<open>0.1, 0.2, \<dots>, 1.0\<close>; with doubles the sweep makes the same ten passes.)
  \<open>Math.random()\<close> is modelled by a stream
  \<open>rng :: nat \<Rightarrow> real\<close> of draws together with a counter of the draws consumed so far;
  its contract (each draw lies in \<open>[0, 1)\<close>) is a hypothesis of the theorems that need it.
\<close>

definition GROUND_HEIGHT :: real where "GROUND_HEIGHT = 50"
definition PLAYABLE_TOP :: real where "PLAYABLE_TOP = 60"
definition SCREEN_HEIGHT :: real where "SCREEN_HEIGHT = 768"
definition GROUND_Y :: real where "GROUND_Y = SCREEN_HEIGHT - GROUND_HEIGHT"
definition PLAYER_SIZE :: real where "PLAYER_SIZE = 40"
definition PLAYER_GROUND_Y :: real where "PLAYER_GROUND_Y = GROUND_Y - PLAYER_SIZE / 2"
definition GROUND_DETECTION_THRESHOLD :: real where "GROUND_DETECTION_THRESHOLD = 5"

text \<open>The simulation timestep \<open>const dt = 1 / 60\<close> of \<open>simulateJump\<close>.\<close>

definition dt :: real where "dt = 1 / 60"

lemmas phys_consts = GROUND_HEIGHT_def PLAYABLE_TOP_def SCREEN_HEIGHT_def GROUND_Y_def
  PLAYER_SIZE_def PLAYER_GROUND_Y_def GROUND_DETECTION_THRESHOLD_def dt_def

datatype obstacle_type = Spike | Block | Gap | Moving

datatype window_type = Tap | Hold

datatype game_mode = Gravity | Wave

record Obstacle =
  ob_x :: real
  ob_y :: real
  ob_width :: real
  ob_height :: real
  ob_type :: obstacle_type
  moveSpeed :: "real option"
  moveRange :: "real option"

text \<open>
  An optional field that is absent, or present with the value \<open>undefined\<close>, is \<open>None\<close>.
\<close>

record JumpWindow =
  jw_startX :: real
  jw_endX :: real
  jw_type :: window_type
  jw_holdDuration :: "real option"

record level_output =
  obstacles :: "Obstacle list"
  jumpWindows :: "JumpWindow list"

section \<open>Trajectory simulator: \<open>simulateJump\<close>\<close>

record position =
  pos_x :: real
  pos_y :: real
  pos_t :: real

record sim_state =
  sim_x :: real
  sim_y :: real
  sim_vy :: real
  sim_t :: real
  isHolding :: bool
  holdTimeRemaining :: real

text \<open>
  One pass through the loop body from \<open>vy += gravity * dt\<close> to the ceiling collision:
  the new values of the loop variables.
\<close>

definition simStep :: "real \<Rightarrow> real \<Rightarrow> real \<Rightarrow> sim_state \<Rightarrow> sim_state" where
  "simStep jumpForce gravity speed s =
     (let vy1 = sim_vy s + gravity * dt;
          active = (isHolding s \<and> holdTimeRemaining s > 0);
          vy2 = (if active \<and> sim_y s \<ge> PLAYER_GROUND_Y - GROUND_DETECTION_THRESHOLD \<and> vy1 \<ge> 0
                 then jumpForce else vy1);
          remaining = (if active then holdTimeRemaining s - dt else holdTimeRemaining s);
          holding = (if active \<and> remaining \<le> 0 then False else isHolding s);
          y1 = sim_y s + vy2 * dt;
          x1 = sim_x s + speed * dt;
          t1 = sim_t s + dt;
          ceiling_hit = (y1 < PLAYABLE_TOP + PLAYER_SIZE / 2)
      in \<lparr> sim_x = x1,
           sim_y = (if ceiling_hit then PLAYABLE_TOP + PLAYER_SIZE / 2 else y1),
           sim_vy = (if ceiling_hit then 0 else vy2),
           sim_t = t1,
           isHolding = holding,
           holdTimeRemaining = remaining \<rparr>)"

lemma simStep_t: "sim_t (simStep jf g sp s) = sim_t s + dt"
  by (simp add: simStep_def Let_def)

text \<open>
  The \<open>while (y < PLAYER_GROUND_Y || vy < 0)\<close> loop with its two \<open>break\<close>s: the landing
  (which pushes one more sample, snapped to the ground) and the safety bound \<open>t > 10\<close>.
\<close>

function simulateJump_loop ::
  "real \<Rightarrow> real \<Rightarrow> real \<Rightarrow> sim_state \<Rightarrow> position list \<Rightarrow> position list" where
  "simulateJump_loop jumpForce gravity speed s positions =
     (if sim_y s < PLAYER_GROUND_Y \<or> sim_vy s < 0 then
        (let positions1 = positions @ [\<lparr> pos_x = sim_x s, pos_y = sim_y s, pos_t = sim_t s \<rparr>];
             s1 = simStep jumpForce gravity speed s
         in if sim_y s1 \<ge> PLAYER_GROUND_Y \<and> sim_vy s1 > 0 \<and> \<not> isHolding s1
            then positions1 @ [\<lparr> pos_x = sim_x s1, pos_y = PLAYER_GROUND_Y, pos_t = sim_t s1 \<rparr>]
            else if sim_t s1 > 10 then positions1
            else simulateJump_loop jumpForce gravity speed s1 positions1)
      else positions)"
  by pat_completeness auto
termination
proof (relation "measure (\<lambda>(jf, g, sp, s, ps). nat \<lceil>(11 - sim_t s) * 60\<rceil>)", goal_cases)
  case 1
  show ?case by simp
next
  case (2 jf g sp s ps ps1 s1)
  then have t1: "sim_t s1 = sim_t s + 1 / 60" and le: "sim_t s1 \<le> 10"
    by (simp_all add: simStep_t dt_def)
  have "(11 - sim_t s) * 60 = (11 - sim_t s1) * 60 + 1" using t1 by simp
  moreover have "(11 - sim_t s1) * 60 \<ge> 60" using le by simp
  ultimately show ?case by simp linarith
qed

definition simInit :: "real \<Rightarrow> real \<Rightarrow> real \<Rightarrow> sim_state" where
  "simInit startX jumpForce holdDuration =
     \<lparr> sim_x = startX, sim_y = PLAYER_GROUND_Y, sim_vy = jumpForce, sim_t = 0,
       isHolding = (holdDuration > 0), holdTimeRemaining = holdDuration \<rparr>"

definition simulateJump :: "real \<Rightarrow> real \<Rightarrow> real \<Rightarrow> real \<Rightarrow> real \<Rightarrow> position list" where
  "simulateJump startX jumpForce gravity speed holdDuration =
     simulateJump_loop jumpForce gravity speed (simInit startX jumpForce holdDuration) []"

section \<open>Clearance solver: \<open>calculateClearanceWindow\<close>\<close>

record scan_state =
  peakY :: real
  firstAboveX :: real
  lastAboveX :: real

text \<open>Body of the loop over \<open>tapPositions\<close>: peak and first/last qualifying offset at once.\<close>

definition tapScan :: "real \<Rightarrow> scan_state \<Rightarrow> position \<Rightarrow> scan_state" where
  "tapScan requiredPlayerY sc pos =
     (let peak = (if pos_y pos < peakY sc then pos_y pos else peakY sc)
      in if pos_y pos \<le> requiredPlayerY
         then \<lparr> peakY = peak,
                firstAboveX = (if firstAboveX sc < 0 then pos_x pos else firstAboveX sc),
                lastAboveX = pos_x pos \<rparr>
         else sc \<lparr> peakY := peak \<rparr>)"

text \<open>Bodies of the two loops over \<open>holdPositions\<close>.\<close>

definition peakStep :: "real \<Rightarrow> position \<Rightarrow> real" where
  "peakStep holdPeakY pos = (if pos_y pos < holdPeakY then pos_y pos else holdPeakY)"

definition aboveStep :: "real \<Rightarrow> real \<times> real \<Rightarrow> position \<Rightarrow> real \<times> real" where
  "aboveStep requiredPlayerY fl pos =
     (if pos_y pos \<le> requiredPlayerY
      then ((if fst fl < 0 then pos_x pos else fst fl), pos_x pos)
      else fl)"

record search_result =
  sr_first :: real
  sr_last :: real
  sr_holdDuration :: real

text \<open>
  The sweep \<open>for (let hd = 0.1; hd <= 1.0; hd += 0.1)\<close>, entered with the values that
  \<open>firstAboveX\<close>, \<open>lastAboveX\<close> and \<open>holdDuration\<close> have before it; the first duration
  whose peak reaches the required height ends it.
\<close>

function holdSweep ::
  "real \<Rightarrow> real \<Rightarrow> real \<Rightarrow> real \<Rightarrow> real \<Rightarrow> search_result \<Rightarrow> search_result" where
  "holdSweep requiredPlayerY jumpForce gravity speed hdur r =
     (if hdur \<le> 1 then
        (let holdPositions = simulateJump 0 jumpForce gravity speed hdur;
             holdPeakY = foldl peakStep PLAYER_GROUND_Y holdPositions
         in if holdPeakY \<le> requiredPlayerY
            then (let fl = foldl (aboveStep requiredPlayerY) (- 1, - 1) holdPositions
                  in \<lparr> sr_first = fst fl, sr_last = snd fl, sr_holdDuration = hdur \<rparr>)
            else holdSweep requiredPlayerY jumpForce gravity speed (hdur + 1 / 10) r)
      else r)"
  by pat_completeness auto
termination
proof (relation "measure (\<lambda>(req, jf, g, sp, hdur, r). nat \<lceil>(2 - hdur) * 10\<rceil>)", goal_cases)
  case 1
  show ?case by simp
next
  case (2 req jf g sp hdur r ps pk)
  then have "(2 - hdur) * 10 \<ge> 10" by simp
  moreover have "(2 - (hdur + 1 / 10)) * 10 = (2 - hdur) * 10 - 1" by simp
  ultimately show ?case by simp linarith
qed

definition requiredPlayerY :: "real \<Rightarrow> real" where
  "requiredPlayerY obstacleHeight =
     (let obstacleTopY = GROUND_Y - obstacleHeight;
          playerBottomClearance = PLAYER_SIZE / 2 + 10
      in obstacleTopY - playerBottomClearance)"

record clearance_search =
  cs_first :: real
  cs_last :: real
  cs_needsHold :: bool
  cs_holdDuration :: real

text \<open>
  The first part of \<open>calculateClearanceWindow\<close>, up to the end of the hold sweep:
  the values of \<open>firstAboveX\<close>, \<open>lastAboveX\<close> (\<open>- 1\<close> when nothing was found),
  \<open>needsHold\<close> and \<open>holdDuration\<close> before the defaults are applied.
\<close>

definition clearanceSearch :: "real \<Rightarrow> real \<Rightarrow> real \<Rightarrow> real \<Rightarrow> clearance_search" where
  "clearanceSearch obstacleHeight jumpForce gravity speed =
     (let req = requiredPlayerY obstacleHeight;
          tapPositions = simulateJump 0 jumpForce gravity speed 0;
          sc = foldl (tapScan req)
                 \<lparr> peakY = PLAYER_GROUND_Y, firstAboveX = - 1, lastAboveX = - 1 \<rparr> tapPositions
      in if peakY sc > req \<or> firstAboveX sc < 0
         then (let r = holdSweep req jumpForce gravity speed (1 / 10)
                         \<lparr> sr_first = firstAboveX sc, sr_last = lastAboveX sc,
                           sr_holdDuration = 0 \<rparr>
               in \<lparr> cs_first = sr_first r, cs_last = sr_last r, cs_needsHold = True,
                    cs_holdDuration = sr_holdDuration r \<rparr>)
         else \<lparr> cs_first = firstAboveX sc, cs_last = lastAboveX sc, cs_needsHold = False,
                cs_holdDuration = 0 \<rparr>)"

record clearance =
  earliestJumpX :: real
  latestJumpX :: real
  needsHold :: bool
  holdDuration :: real

text \<open>The offsets after \<open>if (firstAboveX < 0) firstAboveX = 50\<close> and its sibling.\<close>

definition firstOffset :: "clearance_search \<Rightarrow> real" where
  "firstOffset cs = (if cs_first cs < 0 then 50 else cs_first cs)"

definition lastOffset :: "clearance_search \<Rightarrow> real" where
  "lastOffset cs = (if cs_last cs < 0 then 150 else cs_last cs)"

definition calculateClearanceWindow ::
  "real \<Rightarrow> real \<Rightarrow> real \<Rightarrow> real \<Rightarrow> real \<Rightarrow> real \<Rightarrow> clearance" where
  "calculateClearanceWindow obstacleX obstacleWidth obstacleHeight jumpForce gravity speed =
     (let cs = clearanceSearch obstacleHeight jumpForce gravity speed;
          latest = obstacleX - firstOffset cs;
          earliest = obstacleX + obstacleWidth - lastOffset cs
      in \<lparr> earliestJumpX = min earliest latest,
           latestJumpX = max earliest latest,
           needsHold = cs_needsHold cs,
           holdDuration = cs_holdDuration cs \<rparr>)"

section \<open>Level generator: gravity mode\<close>

text \<open>The values computed from \<open>difficulty\<close> before the generation loop.\<close>

definition baseWindowWidth :: "real \<Rightarrow> real" where
  "baseWindowWidth difficulty = max (220 - difficulty * 12) 60"

definition minSpacing :: "real \<Rightarrow> real" where
  "minSpacing difficulty = max (400 - difficulty * 15) 180"

definition maxSpacing :: "real \<Rightarrow> real" where
  "maxSpacing difficulty = minSpacing difficulty + 150"

definition baseObstacleHeight :: "real \<Rightarrow> real" where
  "baseObstacleHeight difficulty = 45 + difficulty * 3"

definition obstacleHeightVariation :: real where
  "obstacleHeightVariation = 15"

definition holdJumpProbability :: "real \<Rightarrow> real" where
  "holdJumpProbability difficulty = min (1 / 10 + difficulty * (4 / 100)) (1 / 2)"

record gen_state =
  gen_x :: real
  obstacleCount :: nat
  gen_draws :: nat
  gen_obstacles :: "Obstacle list"
  gen_jumpWindows :: "JumpWindow list"

record obstacle_choice =
  oc_height :: real
  oc_width :: real
  oc_type :: obstacle_type
  oc_draws :: nat

text \<open>
  The \<open>if (isHoldJump) ... else if (rand < 0.5) ... else if (rand < 0.85) ... else\<close> chain
  choosing height, width and type; \<open>i\<close> counts the draws consumed, \<open>rand\<close> was draw \<open>i - 1\<close>.
  The gap branch draws no height.
\<close>

definition chooseObstacle ::
  "real \<Rightarrow> (nat \<Rightarrow> real) \<Rightarrow> nat \<Rightarrow> real \<Rightarrow> bool \<Rightarrow> obstacle_choice" where
  "chooseObstacle difficulty rng i rand isHoldJump =
     (if isHoldJump then
        \<lparr> oc_height = baseObstacleHeight difficulty + 30 + rng i * 20,
          oc_width = 50 + difficulty * 2, oc_type = Block, oc_draws = i + 1 \<rparr>
      else if rand < 1 / 2 then
        \<lparr> oc_height = baseObstacleHeight difficulty + rng i * obstacleHeightVariation,
          oc_width = 35 + difficulty * 2, oc_type = Spike, oc_draws = i + 1 \<rparr>
      else if rand < 85 / 100 then
        \<lparr> oc_height = baseObstacleHeight difficulty - 10 + rng i * obstacleHeightVariation,
          oc_width = 50 + difficulty * 3, oc_type = Block, oc_draws = i + 1 \<rparr>
      else
        \<lparr> oc_height = 100, oc_width = 70 + difficulty * 4, oc_type = Gap, oc_draws = i \<rparr>)"

text \<open>\<open>windowStart\<close> and \<open>windowEnd\<close> after the shrink to the target width.\<close>

definition shrinkWindow :: "real \<Rightarrow> clearance \<Rightarrow> real \<times> real" where
  "shrinkWindow difficulty c =
     (let windowStart = earliestJumpX c;
          windowEnd = latestJumpX c;
          actualWindowWidth = windowEnd - windowStart
      in if actualWindowWidth > baseWindowWidth difficulty
         then (let excess = actualWindowWidth - baseWindowWidth difficulty
               in (windowStart + excess * (3 / 10), windowEnd - excess * (7 / 10)))
         else (windowStart, windowEnd))"

text \<open>\<open>if (windowEnd < windowStart) windowEnd = windowStart + 30\<close>.\<close>

definition clampWindow :: "real \<times> real \<Rightarrow> real \<times> real" where
  "clampWindow w = (if snd w < fst w then (fst w, fst w + 30) else w)"

definition gapObstacle :: "real \<Rightarrow> obstacle_choice \<Rightarrow> Obstacle" where
  "gapObstacle x oc =
     \<lparr> ob_x = x, ob_y = 1, ob_width = oc_width oc, ob_height = oc_height oc, ob_type = Gap,
       moveSpeed = None, moveRange = None \<rparr>"

definition gapJumpWindow :: "real \<Rightarrow> JumpWindow" where
  "gapJumpWindow x =
     \<lparr> jw_startX = x - 120, jw_endX = x - 20, jw_type = Tap, jw_holdDuration = None \<rparr>"

definition solidObstacle :: "real \<Rightarrow> obstacle_choice \<Rightarrow> Obstacle" where
  "solidObstacle x oc =
     \<lparr> ob_x = x, ob_y = 1, ob_width = oc_width oc, ob_height = oc_height oc,
       ob_type = oc_type oc, moveSpeed = None, moveRange = None \<rparr>"

text \<open>
  One iteration of the \<open>while (x < length - 400)\<close> loop of \<open>generateJumpWindowLevel\<close>
  in the level module.
\<close>

definition genStep ::
  "real \<Rightarrow> real \<Rightarrow> real \<Rightarrow> real \<Rightarrow> (nat \<Rightarrow> real) \<Rightarrow> gen_state \<Rightarrow> gen_state" where
  "genStep difficulty speed jumpForce gravity rng st =
     (let x = gen_x st;
          rand = rng (gen_draws st);
          isHoldJump = (rand < holdJumpProbability difficulty \<and> difficulty \<ge> 3);
          oc = chooseObstacle difficulty rng (gen_draws st + 1) rand isHoldJump;
          c = calculateClearanceWindow x (oc_width oc)
                (if oc_type oc = Gap then 0 else oc_height oc) jumpForce gravity speed;
          obstacle = (if oc_type oc = Gap then gapObstacle x oc else solidObstacle x oc);
          jumpWindow =
            (if oc_type oc = Gap then gapJumpWindow x
             else (let w = clampWindow (shrinkWindow difficulty c)
                   in \<lparr> jw_startX = fst w, jw_endX = snd w,
                        jw_type = (if needsHold c then Hold else Tap),
                        jw_holdDuration =
                          (if needsHold c then Some (holdDuration c * 1000) else None) \<rparr>));
          spacing = minSpacing difficulty
                    + rng (oc_draws oc) * (maxSpacing difficulty - minSpacing difficulty)
      in \<lparr> gen_x = x + oc_width oc + spacing,
           obstacleCount = obstacleCount st + 1,
           gen_draws = oc_draws oc + 1,
           gen_obstacles = gen_obstacles st @ [obstacle],
           gen_jumpWindows = gen_jumpWindows st @ [jumpWindow] \<rparr>)"

definition genInit :: gen_state where
  "genInit = \<lparr> gen_x = 600, obstacleCount = 0, gen_draws = 0, gen_obstacles = [],
               gen_jumpWindows = [] \<rparr>"

definition genOutput :: "gen_state \<Rightarrow> level_output" where
  "genOutput st = \<lparr> obstacles = gen_obstacles st, jumpWindows = gen_jumpWindows st \<rparr>"

section \<open>Level generator: wave mode\<close>

definition waveSpacing :: "real \<Rightarrow> real" where
  "waveSpacing difficulty = max (180 - difficulty * 8) 100"

definition gapSize :: "real \<Rightarrow> real" where
  "gapSize difficulty = max (42 / 100 - difficulty * (15 / 1000)) (22 / 100)"

text \<open>
  One iteration of the \<open>while (x < length - 200)\<close> loop of \<open>generateWaveObstacles\<close>. The
  wave loop keeps no obstacle count; the state's counter stays as it is.
\<close>

definition waveStep :: "real \<Rightarrow> (nat \<Rightarrow> real) \<Rightarrow> gen_state \<Rightarrow> gen_state" where
  "waveStep difficulty rng st =
     (let x = gen_x st;
          gapY = 2 / 10 + rng (gen_draws st) * (5 / 10);
          actualGapSize = gapSize difficulty + rng (gen_draws st + 1) * (8 / 100);
          obstacleWidth = 55 + difficulty * 2;
          top = \<lparr> ob_x = x, ob_y = 0, ob_width = obstacleWidth,
                  ob_height = gapY - actualGapSize / 2, ob_type = Block,
                  moveSpeed = None, moveRange = None \<rparr>;
          bottom = \<lparr> ob_x = x, ob_y = gapY + actualGapSize / 2, ob_width = obstacleWidth,
                     ob_height = 1 - (gapY + actualGapSize / 2), ob_type = Block,
                     moveSpeed = None, moveRange = None \<rparr>;
          jumpWindow = \<lparr> jw_startX = x - 100, jw_endX = x + obstacleWidth,
                         jw_type = (if gapY < 4 / 10 then Hold else Tap),
                         jw_holdDuration = None \<rparr>
      in \<lparr> gen_x = x + (waveSpacing difficulty + rng (gen_draws st + 2) * 80),
           obstacleCount = obstacleCount st,
           gen_draws = gen_draws st + 3,
           gen_obstacles = gen_obstacles st @ [top, bottom],
           gen_jumpWindows = gen_jumpWindows st @ [jumpWindow] \<rparr>)"

text \<open>
  A loop that does not end returns nothing: \<open>while_option\<close> is \<open>None\<close> then.
\<close>

definition generateWaveObstacles ::
  "real \<Rightarrow> real \<Rightarrow> (nat \<Rightarrow> real) \<Rightarrow> level_output option" where
  "generateWaveObstacles difficulty len rng =
     map_option genOutput
       (while_option (\<lambda>st. gen_x st < len - 200) (waveStep difficulty rng) genInit)"

definition generateJumpWindowLevel ::
  "real \<Rightarrow> real \<Rightarrow> game_mode \<Rightarrow> real \<Rightarrow> real \<Rightarrow> real \<Rightarrow> (nat \<Rightarrow> real)
     \<Rightarrow> level_output option" where
  "generateJumpWindowLevel difficulty len mode speed jumpForce gravity rng =
     (if mode = Wave then generateWaveObstacles difficulty len rng
      else map_option genOutput
             (while_option (\<lambda>st. gen_x st < len - 400)
                (genStep difficulty speed jumpForce gravity rng) genInit))"

section \<open>Level generator: the copy inlined in the test scripts\<close>

text \<open>
  The two test scripts inline the generation code "for testing"; their
  \<open>generateJumpWindowLevel\<close> (gravity mode only) differs from the level module's in three
  places: the flag \<open>hasHadHeldJump\<close> with the forced held jump of difficulty 1, the
  threshold \<open>difficulty >= 2\<close>, and the window's tag \<open>isHoldJump || clearance.needsHold\<close>.
  \<open>clearance.holdDuration\<close> is always a number, so \<open>clearance.holdDuration ?? 0.2\<close> is
  \<open>clearance.holdDuration\<close>.
\<close>

record test_gen_state = gen_state +
  hasHadHeldJump :: bool

definition testGenStep ::
  "real \<Rightarrow> real \<Rightarrow> real \<Rightarrow> real \<Rightarrow> (nat \<Rightarrow> real) \<Rightarrow> test_gen_state \<Rightarrow> test_gen_state" where
  "testGenStep difficulty speed jumpForce gravity rng st =
     (let x = gen_x st;
          rand = rng (gen_draws st);
          forceHeldForLevel1 = (difficulty = 1 \<and> \<not> hasHadHeldJump st \<and> obstacleCount st \<ge> 2);
          isHoldJump = (forceHeldForLevel1
                        \<or> (rand < holdJumpProbability difficulty \<and> difficulty \<ge> 2));
          oc = chooseObstacle difficulty rng (gen_draws st + 1) rand isHoldJump;
          c = calculateClearanceWindow x (oc_width oc)
                (if oc_type oc = Gap then 0 else oc_height oc) jumpForce gravity speed;
          obstacle = (if oc_type oc = Gap then gapObstacle x oc else solidObstacle x oc);
          jumpWindow =
            (if oc_type oc = Gap then gapJumpWindow x
             else (let w = clampWindow (shrinkWindow difficulty c)
                   in \<lparr> jw_startX = fst w, jw_endX = snd w,
                        jw_type = (if isHoldJump \<or> needsHold c then Hold else Tap),
                        jw_holdDuration =
                          (if isHoldJump \<or> needsHold c then Some (holdDuration c * 1000)
                           else None) \<rparr>));
          spacing = minSpacing difficulty
                    + rng (oc_draws oc) * (maxSpacing difficulty - minSpacing difficulty)
      in \<lparr> gen_x = x + oc_width oc + spacing,
           obstacleCount = obstacleCount st + 1,
           gen_draws = oc_draws oc + 1,
           gen_obstacles = gen_obstacles st @ [obstacle],
           gen_jumpWindows = gen_jumpWindows st @ [jumpWindow],
           hasHadHeldJump = (hasHadHeldJump st \<or> isHoldJump) \<rparr>)"

definition testGenInit :: test_gen_state where
  "testGenInit = \<lparr> gen_x = 600, obstacleCount = 0, gen_draws = 0, gen_obstacles = [],
                   gen_jumpWindows = [], hasHadHeldJump = False \<rparr>"

definition testGenOutput :: "test_gen_state \<Rightarrow> level_output" where
  "testGenOutput st = \<lparr> obstacles = gen_obstacles st, jumpWindows = gen_jumpWindows st \<rparr>"

definition test_generateJumpWindowLevel ::
  "real \<Rightarrow> real \<Rightarrow> real \<Rightarrow> real \<Rightarrow> real \<Rightarrow> (nat \<Rightarrow> real) \<Rightarrow> level_output option" where
  "test_generateJumpWindowLevel difficulty len speed jumpForce gravity rng =
     map_option testGenOutput
       (while_option (\<lambda>st. gen_x st < len - 400)
          (testGenStep difficulty speed jumpForce gravity rng) testGenInit)"

text \<open>A constant stream of draws, for concrete runs.\<close>

definition constRng :: "real \<Rightarrow> nat \<Rightarrow> real" where
  "constRng r n = r"

section \<open>Predicates of the statements\<close>

text \<open>The two lengths of a level; the number of obstacles a pass of each loop pushes.\<close>

definition levelLengths :: "level_output \<Rightarrow> nat \<times> nat" where
  "levelLengths lv = (length (obstacles lv), length (jumpWindows lv))"

definition obstaclesPerWindow :: "game_mode \<Rightarrow> nat" where
  "obstaclesPerWindow mode = (case mode of Gravity \<Rightarrow> 1 | Wave \<Rightarrow> 2)"

text \<open>
  \<open>holdDuration\<close> is present exactly when the window is tagged hold; what each mode's
  windows satisfy; the window paired with a gap obstacle.
\<close>

definition holdConsistent :: "JumpWindow \<Rightarrow> bool" where
  "holdConsistent w = ((jw_holdDuration w \<noteq> None) = (jw_type w = Hold))"

definition windowMeta :: "game_mode \<Rightarrow> JumpWindow \<Rightarrow> bool" where
  "windowMeta mode w =
     (case mode of Gravity \<Rightarrow> holdConsistent w | Wave \<Rightarrow> jw_holdDuration w = None)"

definition gapPaired :: "Obstacle \<Rightarrow> JumpWindow \<Rightarrow> bool" where
  "gapPaired ob w = (ob_type ob = Gap \<longrightarrow> w = gapJumpWindow (ob_x ob))"

text \<open>The forced held jump in the generator of the test scripts, at difficulty 1.\<close>

definition forcedHoldInv :: "test_gen_state \<Rightarrow> bool" where
  "forcedHoldInv st =
     (length (gen_jumpWindows st) = obstacleCount st
      \<and> hasHadHeldJump st = (3 \<le> obstacleCount st)
      \<and> (if 3 \<le> obstacleCount st then jw_type (gen_jumpWindows st ! 2) = Hold else True))"

section \<open>The samples as a list built front to back\<close>

text \<open>
  \<open>simTrace\<close> is the list of samples that the loop of \<open>simulateJump\<close> appends to
  \<open>positions\<close> when it runs from the state \<open>s\<close>; \<open>simulateJump_loop_trace\<close> proves it.
\<close>

declare simulateJump_loop.simps [simp del]
declare holdSweep.simps [simp del]

function simTrace :: "real \<Rightarrow> real \<Rightarrow> real \<Rightarrow> sim_state \<Rightarrow> position list" where
  "simTrace jumpForce gravity speed s =
     (if sim_y s < PLAYER_GROUND_Y \<or> sim_vy s < 0 then
        \<lparr> pos_x = sim_x s, pos_y = sim_y s, pos_t = sim_t s \<rparr> #
        (let s1 = simStep jumpForce gravity speed s
         in if sim_y s1 \<ge> PLAYER_GROUND_Y \<and> sim_vy s1 > 0 \<and> \<not> isHolding s1
            then [\<lparr> pos_x = sim_x s1, pos_y = PLAYER_GROUND_Y, pos_t = sim_t s1 \<rparr>]
            else if sim_t s1 > 10 then []
            else simTrace jumpForce gravity speed s1)
      else [])"
  by pat_completeness auto
termination
proof (relation "measure (\<lambda>(jf, g, sp, s). nat \<lceil>(11 - sim_t s) * 60\<rceil>)", goal_cases)
  case 1
  show ?case by simp
next
  case (2 jf g sp s s1)
  then have "sim_t s + 1 / 60 \<le> 10"
    by (simp add: simStep_t dt_def)
  with 2 show ?case by (simp add: simStep_t dt_def) linarith
qed

declare simTrace.simps [simp del]

lemma simulateJump_loop_trace:
  "simulateJump_loop jf g sp s ps = ps @ simTrace jf g sp s"
proof (induction jf g sp s ps rule: simulateJump_loop.induct)
  case (1 jf g sp s ps)
  show ?case
  proof (cases "sim_y s < PLAYER_GROUND_Y \<or> sim_vy s < 0")
    case False
    then show ?thesis
      by (subst simulateJump_loop.simps, subst simTrace.simps) simp
  next
    case guard: True
    let ?s1 = "simStep jf g sp s"
    show ?thesis
    proof (cases "(sim_y ?s1 \<ge> PLAYER_GROUND_Y \<and> sim_vy ?s1 > 0 \<and> \<not> isHolding ?s1)
                  \<or> sim_t ?s1 > 10")
      case True
      with guard show ?thesis
        by (subst simulateJump_loop.simps, subst simTrace.simps) (auto simp: Let_def)
    next
      case False
      with guard "1.IH"[OF guard refl refl] show ?thesis
        by (subst simulateJump_loop.simps, subst simTrace.simps) (auto simp: Let_def)
    qed
  qed
qed

lemma simulateJump_trace:
  "simulateJump startX jf g sp h = simTrace jf g sp (simInit startX jf h)"
  by (simp add: simulateJump_def simulateJump_loop_trace)

lemma simTrace_stop:
  "\<not> (sim_y s < PLAYER_GROUND_Y \<or> sim_vy s < 0) \<Longrightarrow> simTrace jf g sp s = []"
  by (subst simTrace.simps) simp

lemma simTrace_first:
  "sim_y s < PLAYER_GROUND_Y \<or> sim_vy s < 0 \<Longrightarrow>
     \<exists>rest. simTrace jf g sp s = \<lparr> pos_x = sim_x s, pos_y = sim_y s, pos_t = sim_t s \<rparr> # rest"
  by (subst simTrace.simps) simp

text \<open>Elapsed time of the samples, and the number of samples.\<close>

lemma simTrace_time:
  "sim_t s \<le> 10 \<Longrightarrow> p \<in> set (simTrace jf g sp s) \<Longrightarrow> pos_t p \<le> 10 + dt"
proof (induction jf g sp s rule: simTrace.induct)
  case (1 jf g sp s)
  let ?s1 = "simStep jf g sp s"
  from "1.prems"(2) have guard: "sim_y s < PLAYER_GROUND_Y \<or> sim_vy s < 0"
    by (rule contrapos_pp) (simp add: simTrace_stop)
  have dt0: "0 \<le> dt" by (simp add: dt_def)
  have t1: "sim_t ?s1 = sim_t s + dt" by (rule simStep_t)
  consider (first) "p = \<lparr> pos_x = sim_x s, pos_y = sim_y s, pos_t = sim_t s \<rparr>"
    | (land) "p = \<lparr> pos_x = sim_x ?s1, pos_y = PLAYER_GROUND_Y, pos_t = sim_t ?s1 \<rparr>"
    | (rec) "\<not> (sim_y ?s1 \<ge> PLAYER_GROUND_Y \<and> sim_vy ?s1 > 0 \<and> \<not> isHolding ?s1)"
            "\<not> sim_t ?s1 > 10" "p \<in> set (simTrace jf g sp ?s1)"
    using "1.prems"(2) guard
    by (subst (asm) simTrace.simps) (auto simp: Let_def split: if_splits)
  then show ?case
  proof cases
    case first
    with "1.prems"(1) dt0 show ?thesis by simp
  next
    case land
    with "1.prems"(1) t1 show ?thesis by simp
  next
    case rec
    from "1.IH"[OF guard refl rec(1) rec(2) _ rec(3)] rec(2) show ?thesis by simp
  qed
qed

lemma simTrace_length:
  "sim_t s \<le> 10 \<Longrightarrow> length (simTrace jf g sp s) \<le> nat \<lfloor>(10 - sim_t s) * 60\<rfloor> + 2"
proof (induction jf g sp s rule: simTrace.induct)
  case (1 jf g sp s)
  let ?s1 = "simStep jf g sp s"
  have t1: "sim_t ?s1 = sim_t s + 1 / 60" by (simp add: simStep_t dt_def)
  show ?case
  proof (cases "sim_y s < PLAYER_GROUND_Y \<or> sim_vy s < 0")
    case False
    then show ?thesis by (simp add: simTrace_stop)
  next
    case guard: True
    show ?thesis
    proof (cases "(sim_y ?s1 \<ge> PLAYER_GROUND_Y \<and> sim_vy ?s1 > 0 \<and> \<not> isHolding ?s1)
                  \<or> sim_t ?s1 > 10")
      case True
      with guard show ?thesis
        by (subst simTrace.simps) (auto simp: Let_def)
    next
      case False
      then have le: "sim_t ?s1 \<le> 10" by simp
      have eq: "simTrace jf g sp s
                = \<lparr> pos_x = sim_x s, pos_y = sim_y s, pos_t = sim_t s \<rparr> # simTrace jf g sp ?s1"
        using guard False by (subst simTrace.simps) (auto simp: Let_def)
      have ih: "length (simTrace jf g sp ?s1) \<le> nat \<lfloor>(10 - sim_t ?s1) * 60\<rfloor> + 2"
        using "1.IH"[OF guard refl _ _ le] False by simp
      have "(10 - sim_t ?s1) * 60 = (10 - sim_t s) * 60 - 1" using t1 by simp
      moreover have "(10 - sim_t ?s1) * 60 \<ge> 0" using le by simp
      ultimately have "nat \<lfloor>(10 - sim_t ?s1) * 60\<rfloor> + 1 = nat \<lfloor>(10 - sim_t s) * 60\<rfloor>"
        by simp linarith
      with ih eq show ?thesis by simp
    qed
  qed
qed

text \<open>The ceiling clamp: no sample lies above the top of the playable band.\<close>

lemma simStep_y_ceiling: "PLAYABLE_TOP + PLAYER_SIZE / 2 \<le> sim_y (simStep jf g sp s)"
  by (simp add: simStep_def Let_def)

lemma simTrace_ceiling:
  "PLAYABLE_TOP + PLAYER_SIZE / 2 \<le> sim_y s \<Longrightarrow> p \<in> set (simTrace jf g sp s) \<Longrightarrow>
     PLAYABLE_TOP + PLAYER_SIZE / 2 \<le> pos_y p"
proof (induction jf g sp s rule: simTrace.induct)
  case (1 jf g sp s)
  let ?s1 = "simStep jf g sp s"
  from "1.prems"(2) have guard: "sim_y s < PLAYER_GROUND_Y \<or> sim_vy s < 0"
    by (rule contrapos_pp) (simp add: simTrace_stop)
  consider (first) "p = \<lparr> pos_x = sim_x s, pos_y = sim_y s, pos_t = sim_t s \<rparr>"
    | (land) "p = \<lparr> pos_x = sim_x ?s1, pos_y = PLAYER_GROUND_Y, pos_t = sim_t ?s1 \<rparr>"
    | (rec) "\<not> (sim_y ?s1 \<ge> PLAYER_GROUND_Y \<and> sim_vy ?s1 > 0 \<and> \<not> isHolding ?s1)"
            "\<not> sim_t ?s1 > 10" "p \<in> set (simTrace jf g sp ?s1)"
    using "1.prems"(2) guard
    by (subst (asm) simTrace.simps) (auto simp: Let_def split: if_splits)
  then show ?case
  proof cases
    case first
    with "1.prems"(1) show ?thesis by simp
  next
    case land
    then show ?thesis by (simp add: phys_consts)
  next
    case rec
    from "1.IH"[OF guard refl rec(1) rec(2) simStep_y_ceiling rec(3)] show ?thesis .
  qed
qed

lemma simulateJump_ceiling:
  "p \<in> set (simulateJump startX jf g sp h) \<Longrightarrow> 80 \<le> pos_y p"
  using simTrace_ceiling[of "simInit startX jf h" p jf g sp]
  by (simp add: simulateJump_trace simInit_def phys_consts)

lemma simulateJump_first:
  "jf < 0 \<Longrightarrow> \<lparr> pos_x = startX, pos_y = PLAYER_GROUND_Y, pos_t = 0 \<rparr> \<in> set (simulateJump startX jf g sp h)"
  using simTrace_first[of "simInit startX jf h" jf g sp]
  by (auto simp: simulateJump_trace simInit_def)

section \<open>Properties of the simulator\<close>

text \<open>
  C9. With a non-negative \<open>jumpForce\<close> the loop guard is false at the initial state
  (\<open>y\<close> on the ground, \<open>vy = jumpForce\<close>), so the simulator returns the empty list, whatever
  the start position, gravity, speed and hold duration are.
\<close>

theorem simulateJump_nonneg_force_empty:
  "0 \<le> jumpForce \<Longrightarrow> simulateJump startX jumpForce gravity speed hold = []"
  by (simp add: simulateJump_def simInit_def simulateJump_loop.simps)

theorem simulateJump_nonneg_force_empty_witness:
  "(0::real) \<le> 300 \<and> simulateJump 0 300 670 192 (1 / 2) = []"
  using simulateJump_nonneg_force_empty[of 300 0 670 192 "1 / 2"] by simp

text \<open>
  C6. For every input the simulator returns (it is a total function: the loop ends because
  \<open>t\<close> grows by \<open>dt\<close> in each pass and the loop is left once \<open>t > 10\<close>), the list has at
  most 602 samples, and no sample's elapsed time exceeds the bound of 10 seconds by more
  than one timestep.
\<close>

theorem simulateJump_bounded:
  "length (simulateJump startX jumpForce gravity speed hold) \<le> 602
   \<and> (\<forall>p \<in> set (simulateJump startX jumpForce gravity speed hold). pos_t p \<le> 10 + dt)"
proof
  have "length (simTrace jumpForce gravity speed (simInit startX jumpForce hold))
        \<le> nat \<lfloor>(10 - sim_t (simInit startX jumpForce hold)) * 60\<rfloor> + 2"
    by (rule simTrace_length) (simp add: simInit_def)
  then show "length (simulateJump startX jumpForce gravity speed hold) \<le> 602"
    by (simp add: simulateJump_trace simInit_def)
next
  show "\<forall>p \<in> set (simulateJump startX jumpForce gravity speed hold). pos_t p \<le> 10 + dt"
    using simTrace_time[of "simInit startX jumpForce hold" _ jumpForce gravity speed]
    by (simp add: simulateJump_trace simInit_def)
qed

theorem simulateJump_bounded_witness:
  "\<lparr> pos_x = 0, pos_y = 698, pos_t = 0 \<rparr> \<in> set (simulateJump 0 (- 426) 0 192 0)
   \<and> length (simulateJump 0 (- 426) 0 192 0) \<le> 602
   \<and> pos_t \<lparr> pos_x = 0, pos_y = 698, pos_t = 0 \<rparr> \<le> 10 + dt"
  using simulateJump_bounded[of 0 "- 426" 0 192 0] simulateJump_first[of "- 426" 0 0 192 0]
  by (simp add: phys_consts)


section \<open>Lemmas on the solver\<close>

lemma tapScan_peak: "peakY (foldl (tapScan req) sc ps) = foldl peakStep (peakY sc) ps"
  by (induction ps arbitrary: sc) (simp_all add: tapScan_def peakStep_def Let_def)

lemma tapScan_above:
  "(firstAboveX (foldl (tapScan req) sc ps), lastAboveX (foldl (tapScan req) sc ps))
   = foldl (aboveStep req) (firstAboveX sc, lastAboveX sc) ps"
  by (induction ps arbitrary: sc) (simp_all add: tapScan_def aboveStep_def Let_def)

lemma tapScan_first:
  "firstAboveX (foldl (tapScan req) sc ps)
   = fst (foldl (aboveStep req) (firstAboveX sc, lastAboveX sc) ps)"
  using tapScan_above[of req sc ps] by (metis fst_conv)

lemma tapScan_last:
  "lastAboveX (foldl (tapScan req) sc ps)
   = snd (foldl (aboveStep req) (firstAboveX sc, lastAboveX sc) ps)"
  using tapScan_above[of req sc ps] by (metis snd_conv)

lemma peak_le_iff:
  "foldl peakStep a ps \<le> r \<longleftrightarrow> a \<le> r \<or> (\<exists>p \<in> set ps. pos_y p \<le> r)"
  by (induction ps arbitrary: a) (auto simp: peakStep_def)

lemma above_none:
  "\<forall>p \<in> set ps. \<not> pos_y p \<le> req \<Longrightarrow> foldl (aboveStep req) fl ps = fl"
  by (induction ps arbitrary: fl) (simp_all add: aboveStep_def)

lemma holdSweep_none:
  assumes none: "\<forall>k \<in> {1..10::nat}. \<forall>p \<in> set (simulateJump 0 jf g sp (real k / 10)). \<not> pos_y p \<le> req"
    and r: "sr_first r = - 1" "sr_last r = - 1"
  shows "1 \<le> k \<Longrightarrow> sr_first (holdSweep req jf g sp (real k / 10) r) = - 1
                  \<and> sr_last (holdSweep req jf g sp (real k / 10) r) = - 1"
proof (induction "11 - k" arbitrary: k)
  case 0
  then have "\<not> real k / 10 \<le> 1" by simp
  then show ?case using r by (subst holdSweep.simps, subst (2) holdSweep.simps) simp
next
  case (Suc n)
  then have k: "k \<in> {1..10}" by simp
  have next_k: "real k / 10 + 1 / 10 = real (Suc k) / 10" by simp
  have le: "real k / 10 \<le> 1" using k by simp
  from none k have "foldl (aboveStep req) (- 1, - 1) (simulateJump 0 jf g sp (real k / 10)) = (- 1, - 1)"
    by (intro above_none) blast
  moreover have "sr_first (holdSweep req jf g sp (real (Suc k) / 10) r) = - 1
                 \<and> sr_last (holdSweep req jf g sp (real (Suc k) / 10) r) = - 1"
    using Suc by (intro Suc.hyps) simp_all
  ultimately show ?case
    using le by (subst holdSweep.simps, subst (2) holdSweep.simps) (simp add: Let_def next_k)
qed

lemma clearanceSearch_none:
  assumes tap: "\<forall>p \<in> set (simulateJump 0 jf g sp 0). \<not> pos_y p \<le> requiredPlayerY oh"
    and holds: "\<forall>k \<in> {1..10::nat}. \<forall>p \<in> set (simulateJump 0 jf g sp (real k / 10)).
                  \<not> pos_y p \<le> requiredPlayerY oh"
  shows "cs_first (clearanceSearch oh jf g sp) = - 1 \<and> cs_last (clearanceSearch oh jf g sp) = - 1
         \<and> cs_needsHold (clearanceSearch oh jf g sp)"
proof -
  let ?req = "requiredPlayerY oh"
  let ?sc = "foldl (tapScan ?req) \<lparr> peakY = PLAYER_GROUND_Y, firstAboveX = - 1, lastAboveX = - 1 \<rparr>
               (simulateJump 0 jf g sp 0)"
  have fl: "firstAboveX ?sc = - 1" "lastAboveX ?sc = - 1"
    using above_none[OF tap, of "(- 1, - 1)"] by (simp_all add: tapScan_first tapScan_last)
  let ?r = "\<lparr> sr_first = firstAboveX ?sc, sr_last = lastAboveX ?sc, sr_holdDuration = 0 \<rparr>"
  have "sr_first (holdSweep ?req jf g sp (real 1 / 10) ?r) = - 1
        \<and> sr_last (holdSweep ?req jf g sp (real 1 / 10) ?r) = - 1"
    using holds fl by (intro holdSweep_none) simp_all
  then show ?thesis using fl by (simp add: clearanceSearch_def Let_def)
qed

lemma clearanceSearch_too_tall:
  assumes "608 < oh"
  shows "cs_first (clearanceSearch oh jf g sp) = - 1 \<and> cs_last (clearanceSearch oh jf g sp) = - 1
         \<and> cs_needsHold (clearanceSearch oh jf g sp)"
proof (rule clearanceSearch_none)
  have req: "requiredPlayerY oh < 80" using assms by (simp add: requiredPlayerY_def phys_consts)
  show "\<forall>p \<in> set (simulateJump 0 jf g sp 0). \<not> pos_y p \<le> requiredPlayerY oh"
    using simulateJump_ceiling req by fastforce
  show "\<forall>k \<in> {1..10::nat}. \<forall>p \<in> set (simulateJump 0 jf g sp (real k / 10)).
          \<not> pos_y p \<le> requiredPlayerY oh"
    using simulateJump_ceiling req by fastforce
qed

lemma baseWindowWidth_ge: "60 \<le> baseWindowWidth d"
  by (simp add: baseWindowWidth_def)

lemma clearance_ordered:
  "earliestJumpX (calculateClearanceWindow ox ow oh jf g sp)
   \<le> latestJumpX (calculateClearanceWindow ox ow oh jf g sp)"
  by (simp add: calculateClearanceWindow_def Let_def)

lemma shrinkWindow_width:
  assumes "earliestJumpX c \<le> latestJumpX c"
  shows "snd (shrinkWindow d c) - fst (shrinkWindow d c)
         = min (latestJumpX c - earliestJumpX c) (baseWindowWidth d)"
proof (cases "latestJumpX c - earliestJumpX c > baseWindowWidth d")
  case True
  define excess where "excess = latestJumpX c - earliestJumpX c - baseWindowWidth d"
  have "shrinkWindow d c
        = (earliestJumpX c + excess * (3 / 10), latestJumpX c - excess * (7 / 10))"
    using True by (simp add: shrinkWindow_def Let_def excess_def)
  moreover have "latestJumpX c - excess * (7 / 10) - (earliestJumpX c + excess * (3 / 10))
                 = baseWindowWidth d"
    unfolding excess_def by argo
  ultimately show ?thesis using True by simp
next
  case False
  then show ?thesis by (simp add: shrinkWindow_def Let_def)
qed

subsection \<open>The tap trajectory under two gravities\<close>

lemma simStep_tap:
  assumes "\<not> isHolding s"
  shows "sim_y (simStep jf g sp s)
         = (if sim_y s + (sim_vy s + g * dt) * dt < 80 then 80
            else sim_y s + (sim_vy s + g * dt) * dt)"
    and "sim_vy (simStep jf g sp s)
         = (if sim_y s + (sim_vy s + g * dt) * dt < 80 then 0 else sim_vy s + g * dt)"
    and "\<not> isHolding (simStep jf g sp s)"
    and "sim_x (simStep jf g sp s) = sim_x s + sp * dt"
  using assms by (simp_all add: simStep_def Let_def phys_consts)

lemma simTrace_unfold:
  assumes "sim_y s < PLAYER_GROUND_Y \<or> sim_vy s < 0"
    and "\<not> (sim_y (simStep jf g sp s) \<ge> PLAYER_GROUND_Y \<and> sim_vy (simStep jf g sp s) > 0
            \<and> \<not> isHolding (simStep jf g sp s))"
    and "\<not> sim_t (simStep jf g sp s) > 10"
  shows "simTrace jf g sp s
         = \<lparr> pos_x = sim_x s, pos_y = sim_y s, pos_t = sim_t s \<rparr>
           # simTrace jf g sp (simStep jf g sp s)"
  using assms by (subst simTrace.simps) (auto simp: Let_def)

lemma simTrace_cases:
  assumes "p \<in> set (simTrace jf g sp s)"
  obtains (first) "sim_y s < PLAYER_GROUND_Y \<or> sim_vy s < 0"
      "p = \<lparr> pos_x = sim_x s, pos_y = sim_y s, pos_t = sim_t s \<rparr>"
  | (land) "sim_y s < PLAYER_GROUND_Y \<or> sim_vy s < 0"
      "p = \<lparr> pos_x = sim_x (simStep jf g sp s), pos_y = PLAYER_GROUND_Y,
             pos_t = sim_t (simStep jf g sp s) \<rparr>"
  | (rest) "sim_y s < PLAYER_GROUND_Y \<or> sim_vy s < 0"
      "\<not> (sim_y (simStep jf g sp s) \<ge> PLAYER_GROUND_Y \<and> sim_vy (simStep jf g sp s) > 0
          \<and> \<not> isHolding (simStep jf g sp s))"
      "\<not> sim_t (simStep jf g sp s) > 10"
      "p \<in> set (simTrace jf g sp (simStep jf g sp s))"
proof -
  from assms have guard: "sim_y s < PLAYER_GROUND_Y \<or> sim_vy s < 0"
    by (rule contrapos_pp) (simp add: simTrace_stop)
  with assms show thesis
    by (subst (asm) simTrace.simps) (auto simp: Let_def split: if_splits intro: first land rest)
qed

text \<open>
  Lockstep: under the lighter gravity the body is never lower and never slower upwards, as
  long as neither trajectory has been clamped at the ceiling alone; once the lighter one is
  clamped it has a sample on the ceiling, which no sample is above.
\<close>

lemma tap_lockstep:
  assumes "g1 \<le> g2"
    and "p2 \<in> set (simTrace jf g2 sp s2)" "pos_y p2 < PLAYER_GROUND_Y"
    and "sim_t s1 = sim_t s2" "sim_y s1 \<le> sim_y s2" "sim_vy s1 \<le> sim_vy s2"
    and "\<not> isHolding s1" "\<not> isHolding s2" "80 \<le> sim_y s2"
  shows "\<exists>p1 \<in> set (simTrace jf g1 sp s1). pos_y p1 \<le> pos_y p2"
  using assms
proof (induction jf g2 sp s2 arbitrary: s1 rule: simTrace.induct)
  case (1 jf g2 sp s2)
  let ?n1 = "simStep jf g1 sp s1" and ?n2 = "simStep jf g2 sp s2"
  have dt: "0 < dt" by (simp add: dt_def)
  from "1.prems"(2) show ?case
  proof (cases rule: simTrace_cases)
    case first
    with "1.prems" have "sim_y s1 < PLAYER_GROUND_Y \<or> sim_vy s1 < 0" by auto
    then obtain r where "simTrace jf g1 sp s1
        = \<lparr> pos_x = sim_x s1, pos_y = sim_y s1, pos_t = sim_t s1 \<rparr> # r"
      using simTrace_first by blast
    with first "1.prems"(5) show ?thesis by auto
  next
    case land
    with "1.prems"(3) show ?thesis by simp
  next
    case rest
    from rest(1) "1.prems" have guard1: "sim_y s1 < PLAYER_GROUND_Y \<or> sim_vy s1 < 0" by auto
    have vy: "sim_vy s1 + g1 * dt \<le> sim_vy s2 + g2 * dt"
      using "1.prems"(1,6) dt by (simp add: add_mono mult_right_mono)
    then have y: "sim_y s1 + (sim_vy s1 + g1 * dt) * dt \<le> sim_y s2 + (sim_vy s2 + g2 * dt) * dt"
      using "1.prems"(5) dt by (simp add: add_mono mult_right_mono)
    have t: "sim_t ?n1 = sim_t ?n2" using "1.prems"(4) by (simp add: simStep_t)
    note n1 = simStep_tap[OF "1.prems"(7), of jf g1 sp]
    note n2 = simStep_tap[OF "1.prems"(8), of jf g2 sp]
    have y12: "sim_y ?n1 \<le> sim_y ?n2" using y by (simp add: n1 n2)
    have ceil2: "80 \<le> sim_y ?n2" using simStep_y_ceiling[of jf g2 sp s2] by (simp add: phys_consts)
    have noland1: "\<not> (sim_y ?n1 \<ge> PLAYER_GROUND_Y \<and> sim_vy ?n1 > 0 \<and> \<not> isHolding ?n1)"
    proof
      assume l: "sim_y ?n1 \<ge> PLAYER_GROUND_Y \<and> sim_vy ?n1 > 0 \<and> \<not> isHolding ?n1"
      then have "\<not> sim_y s1 + (sim_vy s1 + g1 * dt) * dt < 80"
        by (auto simp: n1 phys_consts split: if_splits)
      with y have nc2: "\<not> sim_y s2 + (sim_vy s2 + g2 * dt) * dt < 80" by simp
      from l y12 have "sim_y ?n2 \<ge> PLAYER_GROUND_Y" by simp
      moreover from l vy nc2 have "sim_vy ?n2 > 0" by (auto simp: n1 n2 split: if_splits)
      ultimately show False using rest(2) n2(3) by simp
    qed
    have unfold1: "simTrace jf g1 sp s1
        = \<lparr> pos_x = sim_x s1, pos_y = sim_y s1, pos_t = sim_t s1 \<rparr> # simTrace jf g1 sp ?n1"
      using guard1 noland1 rest(3) t by (intro simTrace_unfold) simp_all
    show ?thesis
    proof (cases "sim_y s1 + (sim_vy s1 + g1 * dt) * dt < 80
                  \<and> \<not> sim_y s2 + (sim_vy s2 + g2 * dt) * dt < 80")
      case True
      then have "sim_y ?n1 = 80" by (simp add: n1)
      then have "sim_y ?n1 < PLAYER_GROUND_Y \<or> sim_vy ?n1 < 0" by (simp add: phys_consts)
      then obtain r where "simTrace jf g1 sp ?n1
          = \<lparr> pos_x = sim_x ?n1, pos_y = sim_y ?n1, pos_t = sim_t ?n1 \<rparr> # r"
        using simTrace_first by blast
      moreover have "80 \<le> pos_y p2"
        using simTrace_ceiling[of ?n2 p2 jf g2 sp] rest(4) ceil2 by (simp add: phys_consts)
      ultimately show ?thesis using unfold1 \<open>sim_y ?n1 = 80\<close> by auto
    next
      case False
      with vy y have vy12: "sim_vy ?n1 \<le> sim_vy ?n2" by (auto simp: n1 n2)
      have "\<exists>p1 \<in> set (simTrace jf g1 sp ?n1). pos_y p1 \<le> pos_y p2"
        using "1.IH"[OF rest(1) refl rest(2) rest(3) "1.prems"(1) rest(4) "1.prems"(3)
                       t y12 vy12 n1(3) n2(3) ceil2] .
      then show ?thesis using unfold1 by auto
    qed
  qed
qed

lemma tap_qualifies_mono:
  assumes "g1 \<le> g2" and "p2 \<in> set (simulateJump startX jf g2 sp 0)" "pos_y p2 \<le> req"
  shows "\<exists>p1 \<in> set (simulateJump startX jf g1 sp 0). pos_y p1 \<le> req"
proof (cases "pos_y p2 < PLAYER_GROUND_Y")
  case True
  have "\<exists>p1 \<in> set (simTrace jf g1 sp (simInit startX jf 0)). pos_y p1 \<le> pos_y p2"
    using assms(1) assms(2)[unfolded simulateJump_trace] True
    by (rule tap_lockstep) (simp_all add: simInit_def phys_consts)
  then obtain p1 where "p1 \<in> set (simulateJump startX jf g1 sp 0)" "pos_y p1 \<le> pos_y p2"
    by (auto simp: simulateJump_trace)
  with assms(3) show ?thesis by (intro bexI[of _ p1]) simp_all
next
  case False
  have "jf < 0"
  proof (rule ccontr)
    assume "\<not> jf < 0"
    then have "simulateJump startX jf g2 sp 0 = []"
      by (simp add: simulateJump_trace simInit_def simTrace_stop)
    with assms(2) show False by simp
  qed
  then have "\<lparr> pos_x = startX, pos_y = PLAYER_GROUND_Y, pos_t = 0 \<rparr>
             \<in> set (simulateJump startX jf g1 sp 0)"
    by (rule simulateJump_first)
  moreover have "PLAYER_GROUND_Y \<le> req" using False assms(3) by simp
  ultimately show ?thesis by force
qed

text \<open>With a non-negative speed no offset is negative, and \<open>- 1\<close> means "none found".\<close>

lemma simTrace_x_nonneg:
  "0 \<le> sp \<Longrightarrow> 0 \<le> sim_x s \<Longrightarrow> p \<in> set (simTrace jf g sp s) \<Longrightarrow> 0 \<le> pos_x p"
proof (induction jf g sp s rule: simTrace.induct)
  case (1 jf g sp s)
  have x1: "0 \<le> sim_x (simStep jf g sp s)"
    using "1.prems"(1,2) by (simp add: simStep_def Let_def dt_def)
  from "1.prems"(3) show ?case
  proof (cases rule: simTrace_cases)
    case first
    with "1.prems"(2) show ?thesis by simp
  next
    case land
    with x1 show ?thesis by simp
  next
    case rest
    from "1.IH"[OF rest(1) refl rest(2) rest(3) "1.prems"(1) x1 rest(4)] show ?thesis .
  qed
qed

lemma above_first_neg_iff:
  assumes "\<forall>p \<in> set ps. 0 \<le> pos_x p"
  shows "fst (foldl (aboveStep req) fl ps) < 0
         \<longleftrightarrow> fst fl < 0 \<and> \<not> (\<exists>p \<in> set ps. pos_y p \<le> req)"
  using assms
proof (induction ps arbitrary: fl)
  case Nil
  then show ?case by simp
next
  case (Cons p ps)
  then show ?case by (cases fl) (auto simp: aboveStep_def)
qed

lemma needsHold_iff:
  assumes "0 \<le> sp"
  shows "cs_needsHold (clearanceSearch oh jf g sp)
         \<longleftrightarrow> \<not> (\<exists>p \<in> set (simulateJump 0 jf g sp 0). pos_y p \<le> requiredPlayerY oh)"
proof -
  let ?ps = "simulateJump 0 jf g sp 0" and ?req = "requiredPlayerY oh"
  let ?sc = "foldl (tapScan ?req) \<lparr> peakY = PLAYER_GROUND_Y, firstAboveX = - 1, lastAboveX = - 1 \<rparr> ?ps"
  have x: "\<forall>p \<in> set ?ps. 0 \<le> pos_x p"
    using simTrace_x_nonneg[OF assms, of "simInit 0 jf 0" _ jf g]
    by (simp add: simulateJump_trace simInit_def)
  have first: "firstAboveX ?sc < 0 \<longleftrightarrow> \<not> (\<exists>p \<in> set ?ps. pos_y p \<le> ?req)"
    using above_first_neg_iff[OF x, of ?req "(- 1, - 1)"] by (simp add: tapScan_first)
  have peak: "?req < peakY ?sc \<Longrightarrow> \<not> (\<exists>p \<in> set ?ps. pos_y p \<le> ?req)"
    using peak_le_iff[of PLAYER_GROUND_Y ?ps ?req] by (auto simp: tapScan_peak)
  have "cs_needsHold (clearanceSearch oh jf g sp) \<longleftrightarrow> (?req < peakY ?sc \<or> firstAboveX ?sc < 0)"
    by (simp add: clearanceSearch_def Let_def)
  with first peak show ?thesis by blast
qed

lemma no_hold_duration_zero:
  "\<not> cs_needsHold (clearanceSearch oh jf g sp) \<Longrightarrow> cs_holdDuration (clearanceSearch oh jf g sp) = 0"
  by (simp add: clearanceSearch_def Let_def split: if_splits)

text \<open>The returned hold duration is never negative, and 0 when no hold is needed.\<close>

lemma holdSweep_nonneg:
  "0 \<le> hdur \<Longrightarrow> 0 \<le> sr_holdDuration r \<Longrightarrow>
     0 \<le> sr_holdDuration (holdSweep req jf g sp hdur r)"
proof (induction req jf g sp hdur r rule: holdSweep.induct)
  case (1 req jf g sp hdur r)
  show ?case
  proof (cases "hdur \<le> 1")
    case False
    with "1.prems" show ?thesis by (subst holdSweep.simps) simp
  next
    case le: True
    show ?thesis
    proof (cases "foldl peakStep PLAYER_GROUND_Y (simulateJump 0 jf g sp hdur) \<le> req")
      case True
      with le "1.prems" show ?thesis by (subst holdSweep.simps) (simp add: Let_def)
    next
      case False
      have "0 \<le> sr_holdDuration (holdSweep req jf g sp (hdur + 1 / 10) r)"
        using "1.IH"[OF le refl refl False] "1.prems" by simp
      with le False show ?thesis by (subst holdSweep.simps) (simp add: Let_def)
    qed
  qed
qed

lemma holdDuration_nonneg:
  "0 \<le> holdDuration (calculateClearanceWindow ox ow oh jf g sp)"
  using holdSweep_nonneg[of "1 / 10" _ "requiredPlayerY oh" jf g sp]
  by (simp add: calculateClearanceWindow_def clearanceSearch_def Let_def)

lemma no_hold_zero:
  "\<not> needsHold (calculateClearanceWindow ox ow oh jf g sp) \<Longrightarrow>
     holdDuration (calculateClearanceWindow ox ow oh jf g sp) = 0"
  by (simp add: calculateClearanceWindow_def Let_def no_hold_duration_zero)

subsection \<open>Concrete trajectories\<close>

lemma clearanceSearch_tap:
  assumes "foldl (tapScan (requiredPlayerY oh))
             \<lparr> peakY = PLAYER_GROUND_Y, firstAboveX = - 1, lastAboveX = - 1 \<rparr>
             (simulateJump 0 jf g sp 0) = sc"
    and "peakY sc \<le> requiredPlayerY oh" "0 \<le> firstAboveX sc"
  shows "clearanceSearch oh jf g sp
         = \<lparr> cs_first = firstAboveX sc, cs_last = lastAboveX sc, cs_needsHold = False,
             cs_holdDuration = 0 \<rparr>"
  using assms by (auto simp: clearanceSearch_def Let_def)

lemmas sim_eval = simulateJump_trace simTrace.simps simInit_def simStep_def Let_def phys_consts

text \<open>
  The tap jump of level 1 (\<open>jumpForce = - 426\<close>, \<open>gravity = 670\<close>, \<open>speed = 192\<close>) against
  a block of height \<open>45.5\<close>: 77 samples, peak \<open>y = 67933 / 120\<close>, which is well above the
  required \<open>642.5\<close>.
\<close>

lemma level1_tap_scan:
  "foldl (tapScan (1285 / 2)) \<lparr> peakY = PLAYER_GROUND_Y, firstAboveX = - 1, lastAboveX = - 1 \<rparr>
     (simulateJump 0 (- 426) 670 192 0)
   = \<lparr> peakY = 67933 / 120, firstAboveX = 144 / 5, lastAboveX = 1056 / 5 \<rparr>"
  by (simp add: sim_eval tapScan_def)

lemma level1_block_search:
  "clearanceSearch (91 / 2) (- 426) 670 192
   = \<lparr> cs_first = 144 / 5, cs_last = 1056 / 5, cs_needsHold = False, cs_holdDuration = 0 \<rparr>"
proof -
  have req: "requiredPlayerY (91 / 2) = 1285 / 2"
    by (simp add: requiredPlayerY_def Let_def phys_consts)
  show ?thesis
    using clearanceSearch_tap[of "91 / 2" "- 426" 670 192, unfolded req, OF level1_tap_scan]
    by simp
qed

lemma clearanceSearch_hold:
  assumes "requiredPlayerY oh < foldl peakStep PLAYER_GROUND_Y (simulateJump 0 jf g sp 0)"
  shows "\<exists>a b. clearanceSearch oh jf g sp
           = (let r = holdSweep (requiredPlayerY oh) jf g sp (1 / 10)
                        \<lparr> sr_first = a, sr_last = b, sr_holdDuration = 0 \<rparr>
              in \<lparr> cs_first = sr_first r, cs_last = sr_last r, cs_needsHold = True,
                   cs_holdDuration = sr_holdDuration r \<rparr>)"
  using assms by (auto simp: clearanceSearch_def Let_def tapScan_peak)

text \<open>
  Peaks of the trajectories of \<open>jumpForce = - 426\<close>, \<open>speed = 192\<close> at gravity 1500 and at
  gravity 1750, for the tap jump and for the hold durations of the sweep. A held jump that
  lands while the hold lasts starts again from up to 5 units above the ground, with the
  full \<open>jumpForce\<close>, and so peaks a little higher than the tap jump.
\<close>

lemma peaks_1500:
  "foldl peakStep PLAYER_GROUND_Y (simulateJump 0 (- 426) 1500 192 0) = 12821 / 20"
  "foldl peakStep PLAYER_GROUND_Y (simulateJump 0 (- 426) 1500 192 (1 / 10)) = 12821 / 20"
  "foldl peakStep PLAYER_GROUND_Y (simulateJump 0 (- 426) 1500 192 (1 / 5)) = 12821 / 20"
  "foldl peakStep PLAYER_GROUND_Y (simulateJump 0 (- 426) 1500 192 (3 / 10)) = 12821 / 20"
  "foldl peakStep PLAYER_GROUND_Y (simulateJump 0 (- 426) 1500 192 (2 / 5)) = 12821 / 20"
  "foldl peakStep PLAYER_GROUND_Y (simulateJump 0 (- 426) 1500 192 (1 / 2)) = 12821 / 20"
  "foldl peakStep PLAYER_GROUND_Y (simulateJump 0 (- 426) 1500 192 (3 / 5)) = 3167 / 5"
  by (simp_all add: sim_eval peakStep_def)

lemma peaks_1750:
  "foldl peakStep PLAYER_GROUND_Y (simulateJump 0 (- 426) 1750 192 0) = 77957 / 120"
  "foldl peakStep PLAYER_GROUND_Y (simulateJump 0 (- 426) 1750 192 (1 / 10)) = 77957 / 120"
  "foldl peakStep PLAYER_GROUND_Y (simulateJump 0 (- 426) 1750 192 (1 / 5)) = 77957 / 120"
  "foldl peakStep PLAYER_GROUND_Y (simulateJump 0 (- 426) 1750 192 (3 / 10)) = 77957 / 120"
  "foldl peakStep PLAYER_GROUND_Y (simulateJump 0 (- 426) 1750 192 (2 / 5)) = 77957 / 120"
  "foldl peakStep PLAYER_GROUND_Y (simulateJump 0 (- 426) 1750 192 (1 / 2)) = 230797 / 360"
  "foldl peakStep PLAYER_GROUND_Y (simulateJump 0 (- 426) 1750 192 (3 / 5)) = 230797 / 360"
  "foldl peakStep PLAYER_GROUND_Y (simulateJump 0 (- 426) 1750 192 (7 / 10)) = 230797 / 360"
  "foldl peakStep PLAYER_GROUND_Y (simulateJump 0 (- 426) 1750 192 (4 / 5)) = 230797 / 360"
  "foldl peakStep PLAYER_GROUND_Y (simulateJump 0 (- 426) 1750 192 (9 / 10)) = 230797 / 360"
  "foldl peakStep PLAYER_GROUND_Y (simulateJump 0 (- 426) 1750 192 1) = 115121 / 180"
  by (simp_all add: sim_eval peakStep_def)

lemma sweep_1500:
  "sr_holdDuration (holdSweep 635 (- 426) 1500 192 (1 / 10)
                      \<lparr> sr_first = a, sr_last = b, sr_holdDuration = 0 \<rparr>) = 3 / 5"
  by (simp add: holdSweep.simps peaks_1500 Let_def)

lemma sweep_1750:
  "sr_holdDuration (holdSweep 635 (- 426) 1750 192 (1 / 10)
                      \<lparr> sr_first = a, sr_last = b, sr_holdDuration = 0 \<rparr>) = 0"
  by (simp add: holdSweep.simps peaks_1750 Let_def)

lemma required_53: "requiredPlayerY 53 = 635"
  by (simp add: requiredPlayerY_def Let_def phys_consts)

lemma peaks_5000:
  "foldl peakStep PLAYER_GROUND_Y (simulateJump 0 (- 426) 5000 192 0) = 2050 / 3"
  "foldl peakStep PLAYER_GROUND_Y (simulateJump 0 (- 426) 5000 192 (1 / 10)) = 2050 / 3"
  "foldl peakStep PLAYER_GROUND_Y (simulateJump 0 (- 426) 5000 192 (1 / 5)) = 4049 / 6"
  "foldl peakStep PLAYER_GROUND_Y (simulateJump 0 (- 426) 5000 192 (3 / 10)) = 4049 / 6"
  "foldl peakStep PLAYER_GROUND_Y (simulateJump 0 (- 426) 5000 192 (2 / 5)) = 60581 / 90"
  "foldl peakStep PLAYER_GROUND_Y (simulateJump 0 (- 426) 5000 192 (1 / 2)) = 60581 / 90"
  "foldl peakStep PLAYER_GROUND_Y (simulateJump 0 (- 426) 5000 192 (3 / 5)) = 60427 / 90"
  by (simp_all add: sim_eval peakStep_def)

lemma peaks_5250:
  "foldl peakStep PLAYER_GROUND_Y (simulateJump 0 (- 426) 5250 192 0) = 41051 / 60"
  "foldl peakStep PLAYER_GROUND_Y (simulateJump 0 (- 426) 5250 192 (1 / 10)) = 41051 / 60"
  "foldl peakStep PLAYER_GROUND_Y (simulateJump 0 (- 426) 5250 192 (1 / 5)) = 40367 / 60"
  by (simp_all add: sim_eval peakStep_def)

text \<open>
  A block of height \<open>45.5\<close> under gravity 1750: the tap jump peaks at \<open>y = 649.64\<close>, short of
  the required \<open>642.5\<close>; the held jump of \<open>0.5\<close> seconds reaches \<open>641.1\<close>, and stays high
  enough over 12.8 units of distance only.
\<close>

lemma above_1750_half:
  "foldl (aboveStep (1285 / 2)) (- 1, - 1) (simulateJump 0 (- 426) 1750 192 (1 / 2))
   = (656 / 5, 144)"
  by (simp add: sim_eval aboveStep_def)

lemma hold_block_search_1750:
  "clearanceSearch (91 / 2) (- 426) 1750 192
   = \<lparr> cs_first = 656 / 5, cs_last = 144, cs_needsHold = True, cs_holdDuration = 1 / 2 \<rparr>"
proof -
  have req: "requiredPlayerY (91 / 2) = 1285 / 2"
    by (simp add: requiredPlayerY_def Let_def phys_consts)
  have "holdSweep (1285 / 2) (- 426) 1750 192 (1 / 10)
          \<lparr> sr_first = a, sr_last = b, sr_holdDuration = 0 \<rparr>
        = \<lparr> sr_first = 656 / 5, sr_last = 144, sr_holdDuration = 1 / 2 \<rparr>" for a b
    by (simp add: holdSweep.simps peaks_1750 above_1750_half Let_def)
  then show ?thesis
    using clearanceSearch_hold[of "91 / 2" "- 426" 1750 192]
    by (auto simp: req peaks_1750 Let_def)
qed

section \<open>Properties of the solver\<close>

text \<open>
  C4. For every input the solver's interval is ordered, \<open>earliestJumpX \<le> latestJumpX\<close>: the
  result is the minimum and the maximum of the raw bounds
  \<open>obstacleX + obstacleWidth - lastOffset\<close> and \<open>obstacleX - firstOffset\<close>, so inverted raw
  bounds come back reordered. At the concrete input below (a block 53 wide that a held jump
  clears over 12.8 units only) the raw bounds \<open>509\<close> and \<open>468.8\<close> are inverted.
\<close>

theorem clearance_window_ordered:
  "earliestJumpX (calculateClearanceWindow ox ow oh jf g sp)
     = min (ox + ow - lastOffset (clearanceSearch oh jf g sp))
           (ox - firstOffset (clearanceSearch oh jf g sp))
   \<and> latestJumpX (calculateClearanceWindow ox ow oh jf g sp)
     = max (ox + ow - lastOffset (clearanceSearch oh jf g sp))
           (ox - firstOffset (clearanceSearch oh jf g sp))
   \<and> earliestJumpX (calculateClearanceWindow ox ow oh jf g sp)
     \<le> latestJumpX (calculateClearanceWindow ox ow oh jf g sp)"
  by (simp add: calculateClearanceWindow_def Let_def)

theorem clearance_window_ordered_witness:
  "600 - firstOffset (clearanceSearch (91 / 2) (- 426) 1750 192)
     < 600 + 53 - lastOffset (clearanceSearch (91 / 2) (- 426) 1750 192)
   \<and> earliestJumpX (calculateClearanceWindow 600 53 (91 / 2) (- 426) 1750 192) = 2344 / 5
   \<and> latestJumpX (calculateClearanceWindow 600 53 (91 / 2) (- 426) 1750 192) = 509"
  using clearance_window_ordered[of 600 53 "91 / 2" "- 426" 1750 192]
  by (simp add: hold_block_search_1750 firstOffset_def lastOffset_def)

text \<open>
  C7. When no sample of the tap trajectory and no sample of any of the ten trajectories of
  the hold sweep reaches the required height (no qualifying offset), the solver takes the
  defaults \<open>firstOffset = 50\<close> and \<open>lastOffset = 150\<close> and returns the ordered window
  built from them, flagged \<open>needsHold\<close>.
\<close>

theorem clearance_fallback_defaults:
  assumes "\<forall>p \<in> set (simulateJump 0 jf g sp 0). \<not> pos_y p \<le> requiredPlayerY oh"
    and "\<forall>k \<in> {1..10::nat}. \<forall>p \<in> set (simulateJump 0 jf g sp (real k / 10)).
           \<not> pos_y p \<le> requiredPlayerY oh"
  shows "firstOffset (clearanceSearch oh jf g sp) = 50
         \<and> lastOffset (clearanceSearch oh jf g sp) = 150
         \<and> earliestJumpX (calculateClearanceWindow ox ow oh jf g sp) = min (ox + ow - 150) (ox - 50)
         \<and> latestJumpX (calculateClearanceWindow ox ow oh jf g sp) = max (ox + ow - 150) (ox - 50)
         \<and> needsHold (calculateClearanceWindow ox ow oh jf g sp)"
  using clearanceSearch_none[OF assms]
  by (simp add: calculateClearanceWindow_def Let_def firstOffset_def lastOffset_def)

theorem clearance_fallback_defaults_witness:
  "firstOffset (clearanceSearch 700 (- 426) 670 192) = 50
   \<and> lastOffset (clearanceSearch 700 (- 426) 670 192) = 150
   \<and> earliestJumpX (calculateClearanceWindow 1000 60 700 (- 426) 670 192) = 910
   \<and> latestJumpX (calculateClearanceWindow 1000 60 700 (- 426) 670 192) = 950
   \<and> needsHold (calculateClearanceWindow 1000 60 700 (- 426) 670 192)"
proof -
  have req: "requiredPlayerY 700 = - 12"
    by (simp add: requiredPlayerY_def Let_def phys_consts)
  have tap: "\<forall>p \<in> set (simulateJump 0 (- 426) 670 192 0). \<not> pos_y p \<le> requiredPlayerY 700"
    unfolding req using simulateJump_ceiling by fastforce
  have holds: "\<forall>k \<in> {1..10::nat}. \<forall>p \<in> set (simulateJump 0 (- 426) 670 192 (real k / 10)).
                 \<not> pos_y p \<le> requiredPlayerY 700"
    unfolding req using simulateJump_ceiling by fastforce
  show ?thesis
    using clearance_fallback_defaults[OF tap holds, of 1000 60] by simp
qed

text \<open>
  C10. For every non-gap obstacle the window after the shrink step still has
  \<open>windowStart \<le> windowEnd\<close>: its width is the minimum of the natural width and the target
  width, which is at least 0, so the branch \<open>windowEnd < windowStart\<close> is never taken
  (\<open>clampWindow\<close> leaves the window as it is).
\<close>

theorem shrink_never_inverts:
  "fst (shrinkWindow d (calculateClearanceWindow ox ow oh jf g sp))
     \<le> snd (shrinkWindow d (calculateClearanceWindow ox ow oh jf g sp))
   \<and> snd (shrinkWindow d (calculateClearanceWindow ox ow oh jf g sp))
       - fst (shrinkWindow d (calculateClearanceWindow ox ow oh jf g sp))
     = min (latestJumpX (calculateClearanceWindow ox ow oh jf g sp)
             - earliestJumpX (calculateClearanceWindow ox ow oh jf g sp))
           (baseWindowWidth d)
   \<and> clampWindow (shrinkWindow d (calculateClearanceWindow ox ow oh jf g sp))
     = shrinkWindow d (calculateClearanceWindow ox ow oh jf g sp)"
proof -
  let ?c = "calculateClearanceWindow ox ow oh jf g sp"
  have w: "snd (shrinkWindow d ?c) - fst (shrinkWindow d ?c)
           = min (latestJumpX ?c - earliestJumpX ?c) (baseWindowWidth d)"
    by (rule shrinkWindow_width) (rule clearance_ordered)
  have "0 \<le> min (latestJumpX ?c - earliestJumpX ?c) (baseWindowWidth d)"
    using clearance_ordered[of ox ow oh jf g sp] baseWindowWidth_ge[of d] by simp
  with w have le: "fst (shrinkWindow d ?c) \<le> snd (shrinkWindow d ?c)" by linarith
  then have "clampWindow (shrinkWindow d ?c) = shrinkWindow d ?c"
    by (simp add: clampWindow_def)
  with w le show ?thesis by simp
qed

theorem shrink_never_inverts_witness:
  "shrinkWindow 10 (calculateClearanceWindow 600 80 (91 / 2) (- 426) 670 192)
     = (11738 / 25, 14238 / 25)
   \<and> clampWindow (shrinkWindow 10 (calculateClearanceWindow 600 80 (91 / 2) (- 426) 670 192))
     = (11738 / 25, 14238 / 25)"
  using shrink_never_inverts[of 10 600 80 "91 / 2" "- 426" 670 192]
  by (simp add: calculateClearanceWindow_def level1_block_search firstOffset_def lastOffset_def
      shrinkWindow_def baseWindowWidth_def Let_def)

text \<open>
  C8, as stated, fails. For an obstacle of height 53 with \<open>jumpForce = - 426\<close> and
  \<open>speed = 192\<close>, the solver returns the hold duration \<open>0.6\<close> at gravity 1500 and the hold
  duration \<open>0\<close> at gravity 1750: there no duration of the sweep reaches the required height
  and \<open>holdDuration\<close> keeps its initial value.
\<close>

theorem hold_duration_not_monotone:
  "(0::real) < 1500 \<and> (1500::real) \<le> 1750
   \<and> holdDuration (calculateClearanceWindow 1000 50 53 (- 426) 1500 192) = 3 / 5
   \<and> holdDuration (calculateClearanceWindow 1000 50 53 (- 426) 1750 192) = 0
   \<and> holdDuration (calculateClearanceWindow 1000 50 53 (- 426) 1750 192)
     < holdDuration (calculateClearanceWindow 1000 50 53 (- 426) 1500 192)"
proof -
  have "cs_holdDuration (clearanceSearch 53 (- 426) 1500 192) = 3 / 5"
    using clearanceSearch_hold[of 53 "- 426" 1500 192]
    by (auto simp: required_53 peaks_1500 sweep_1500 Let_def)
  moreover have "cs_holdDuration (clearanceSearch 53 (- 426) 1750 192) = 0"
    using clearanceSearch_hold[of 53 "- 426" 1750 192]
    by (auto simp: required_53 peaks_1750 sweep_1750 Let_def)
  ultimately show ?thesis
    by (simp add: calculateClearanceWindow_def Let_def)
qed

text \<open>
  C8, amended. For a fixed obstacle, jump force and speed, and gravities \<open>g1 \<le> g2\<close>: if
  no hold is needed at \<open>g1\<close> (the tap jump clears the obstacle there), the hold duration
  at \<open>g1\<close> is 0, the hold duration at \<open>g2\<close> is not negative, and so the hold duration at
  \<open>g2\<close> is at least that at \<open>g1\<close>. Nothing is assumed of the speed or of the outcome at
  \<open>g2\<close>.
\<close>

theorem hold_duration_monotone_from_tap:
  assumes "g1 \<le> g2"
    and "\<not> needsHold (calculateClearanceWindow ox ow oh jf g1 speed)"
  shows "holdDuration (calculateClearanceWindow ox ow oh jf g1 speed) = 0
         \<and> 0 \<le> holdDuration (calculateClearanceWindow ox ow oh jf g2 speed)
         \<and> holdDuration (calculateClearanceWindow ox ow oh jf g1 speed)
           \<le> holdDuration (calculateClearanceWindow ox ow oh jf g2 speed)"
  using no_hold_zero[OF assms(2)] holdDuration_nonneg[of ox ow oh jf g2 speed] by simp

theorem hold_duration_monotone_from_tap_witness:
  "(670::real) \<le> 1750
   \<and> \<not> needsHold (calculateClearanceWindow 600 53 (91 / 2) (- 426) 670 192)
   \<and> needsHold (calculateClearanceWindow 600 53 (91 / 2) (- 426) 1750 192)
   \<and> holdDuration (calculateClearanceWindow 600 53 (91 / 2) (- 426) 670 192) = 0
   \<and> holdDuration (calculateClearanceWindow 600 53 (91 / 2) (- 426) 1750 192) = 1 / 2
   \<and> holdDuration (calculateClearanceWindow 600 53 (91 / 2) (- 426) 670 192)
     \<le> holdDuration (calculateClearanceWindow 600 53 (91 / 2) (- 426) 1750 192)"
proof -
  have tap: "\<not> needsHold (calculateClearanceWindow 600 53 (91 / 2) (- 426) 670 192)"
    by (simp add: calculateClearanceWindow_def Let_def level1_block_search)
  have hold: "needsHold (calculateClearanceWindow 600 53 (91 / 2) (- 426) 1750 192)
              \<and> holdDuration (calculateClearanceWindow 600 53 (91 / 2) (- 426) 1750 192) = 1 / 2"
    by (simp add: calculateClearanceWindow_def Let_def hold_block_search_1750)
  have le: "(670::real) \<le> 1750" by simp
  from hold_duration_monotone_from_tap[OF le tap] tap hold show ?thesis by simp
qed

text \<open>
  The need for a hold is itself monotone in gravity when the speed is not negative: a tap
  jump that suffices at \<open>g2\<close> suffices at every \<open>g1 \<le> g2\<close>, and the hold duration is 0 at
  both.
\<close>

lemma hold_need_monotone:
  assumes "0 \<le> speed" and "g1 \<le> g2"
    and "\<not> needsHold (calculateClearanceWindow ox ow oh jf g2 speed)"
  shows "\<not> needsHold (calculateClearanceWindow ox ow oh jf g1 speed)
         \<and> holdDuration (calculateClearanceWindow ox ow oh jf g1 speed) = 0
         \<and> holdDuration (calculateClearanceWindow ox ow oh jf g2 speed) = 0"
proof -
  from assms(3) have n2: "\<not> cs_needsHold (clearanceSearch oh jf g2 speed)"
    by (simp add: calculateClearanceWindow_def Let_def)
  then obtain p2 where "p2 \<in> set (simulateJump 0 jf g2 speed 0)" "pos_y p2 \<le> requiredPlayerY oh"
    using needsHold_iff[OF assms(1), of oh jf g2] by blast
  with assms(2) have "\<exists>p1 \<in> set (simulateJump 0 jf g1 speed 0). pos_y p1 \<le> requiredPlayerY oh"
    by (rule tap_qualifies_mono)
  then have n1: "\<not> cs_needsHold (clearanceSearch oh jf g1 speed)"
    using needsHold_iff[OF assms(1), of oh jf g1] by blast
  from n1 n2 show ?thesis
    by (simp add: calculateClearanceWindow_def Let_def no_hold_duration_zero)
qed

text \<open>
  Also where the sweep finds a duration at both gravities, the duration can drop as
  gravity grows: the height gained by a held jump depends on where the landing step falls.
\<close>

lemma hold_duration_drops_within_sweep:
  "holdDuration (calculateClearanceWindow 1000 50 15 (- 426) 5000 192) = 3 / 5
   \<and> holdDuration (calculateClearanceWindow 1000 50 15 (- 426) 5250 192) = 1 / 5"
proof -
  have req: "requiredPlayerY 15 = 673"
    by (simp add: requiredPlayerY_def Let_def phys_consts)
  have "sr_holdDuration (holdSweep 673 (- 426) 5000 192 (1 / 10)
                           \<lparr> sr_first = a, sr_last = b, sr_holdDuration = 0 \<rparr>) = 3 / 5" for a b
    by (simp add: holdSweep.simps peaks_5000 Let_def)
  then have "cs_holdDuration (clearanceSearch 15 (- 426) 5000 192) = 3 / 5"
    using clearanceSearch_hold[of 15 "- 426" 5000 192]
    by (auto simp: req peaks_5000 Let_def)
  moreover
  have "sr_holdDuration (holdSweep 673 (- 426) 5250 192 (1 / 10)
                           \<lparr> sr_first = a, sr_last = b, sr_holdDuration = 0 \<rparr>) = 1 / 5" for a b
    by (simp add: holdSweep.simps peaks_5250 Let_def)
  then have "cs_holdDuration (clearanceSearch 15 (- 426) 5250 192) = 1 / 5"
    using clearanceSearch_hold[of 15 "- 426" 5250 192]
    by (auto simp: req peaks_5250 Let_def)
  ultimately show ?thesis
    by (simp add: calculateClearanceWindow_def Let_def)
qed

section \<open>Lemmas on the generators\<close>

lemma ceiling_measure_decreases:
  fixes x x' L c :: real
  assumes "0 < c" "x < L" "x + c \<le> x'"
  shows "nat \<lceil>(L - x') / c\<rceil> < nat \<lceil>(L - x) / c\<rceil>"
proof -
  have "(L - x') / c \<le> (L - x - c) / c"
    using assms by (intro divide_right_mono) simp_all
  also have "\<dots> = (L - x) / c - 1"
    using assms by (simp add: diff_divide_distrib)
  finally have "(L - x') / c \<le> (L - x) / c - 1" .
  then have "\<lceil>(L - x') / c\<rceil> \<le> \<lceil>(L - x) / c\<rceil> - 1"
    by (metis ceiling_diff_one ceiling_mono)
  moreover have "0 < \<lceil>(L - x) / c\<rceil>" using assms by simp
  ultimately show ?thesis by linarith
qed

lemma chooseObstacle_advance:
  "215 \<le> oc_width (chooseObstacle d rng i rand b) + minSpacing d"
  by (cases "0 \<le> d") (auto simp: chooseObstacle_def minSpacing_def max_def)

lemma genStep_x:
  assumes "\<And>n. 0 \<le> rng n"
  shows "gen_x st + 215 \<le> gen_x (genStep d sp jf g rng st)"
proof -
  define rand where "rand = rng (gen_draws st)"
  define oc where "oc = chooseObstacle d rng (gen_draws st + 1) rand
                          (rand < holdJumpProbability d \<and> 3 \<le> d)"
  have "gen_x (genStep d sp jf g rng st)
        = gen_x st + oc_width oc + (minSpacing d + rng (oc_draws oc) * 150)"
    by (simp add: genStep_def Let_def oc_def rand_def maxSpacing_def)
  moreover have "0 \<le> rng (oc_draws oc) * 150" using assms by simp
  moreover have "215 \<le> oc_width oc + minSpacing d"
    unfolding oc_def by (rule chooseObstacle_advance)
  ultimately show ?thesis by linarith
qed

lemma testGenStep_x:
  assumes "\<And>n. 0 \<le> rng n"
  shows "gen_x st + 215 \<le> gen_x (testGenStep d sp jf g rng st)"
proof -
  define rand where "rand = rng (gen_draws st)"
  define oc where "oc = chooseObstacle d rng (gen_draws st + 1) rand
                          ((d = 1 \<and> \<not> hasHadHeldJump st \<and> 2 \<le> obstacleCount st)
                           \<or> (rand < holdJumpProbability d \<and> 2 \<le> d))"
  have "gen_x (testGenStep d sp jf g rng st)
        = gen_x st + oc_width oc + (minSpacing d + rng (oc_draws oc) * 150)"
    by (simp add: testGenStep_def Let_def oc_def rand_def maxSpacing_def)
  moreover have "0 \<le> rng (oc_draws oc) * 150" using assms by simp
  moreover have "215 \<le> oc_width oc + minSpacing d"
    unfolding oc_def by (rule chooseObstacle_advance)
  ultimately show ?thesis by linarith
qed

lemma waveStep_x:
  assumes "\<And>n. 0 \<le> rng n"
  shows "gen_x st + 100 \<le> gen_x (waveStep d rng st)"
proof -
  have "gen_x (waveStep d rng st) = gen_x st + (waveSpacing d + rng (gen_draws st + 2) * 80)"
    by (simp add: waveStep_def Let_def)
  moreover have "0 \<le> rng (gen_draws st + 2) * 80" using assms by simp
  moreover have "100 \<le> waveSpacing d" by (simp add: waveSpacing_def)
  ultimately show ?thesis by linarith
qed

text \<open>
  Each loop ends, and an invariant of its body that holds at the start holds at the end.
\<close>

lemma gravity_loop:
  assumes rng: "\<And>n. 0 \<le> rng n"
    and init: "P st0"
    and step: "\<And>st. P st \<Longrightarrow> P (genStep d sp jf g rng st)"
  shows "\<exists>st. while_option (\<lambda>st. gen_x st < len - 400) (genStep d sp jf g rng) st0 = Some st
              \<and> P st"
proof -
  have "\<exists>st. while_option (\<lambda>st. gen_x st < len - 400) (genStep d sp jf g rng) st0 = Some st"
  proof (rule measure_while_option_Some[where P = "\<lambda>_. True"
          and f = "\<lambda>st. nat \<lceil>(len - 400 - gen_x st) / 215\<rceil>"])
    fix st :: gen_state
    assume "gen_x st < len - 400"
    then show "True \<and> nat \<lceil>(len - 400 - gen_x (genStep d sp jf g rng st)) / 215\<rceil>
                      < nat \<lceil>(len - 400 - gen_x st) / 215\<rceil>"
      using genStep_x[where rng = rng, OF rng, of st d sp jf g]
        ceiling_measure_decreases[of 215 "gen_x st" "len - 400" "gen_x (genStep d sp jf g rng st)"]
      by simp
  qed simp
  then obtain st where st: "while_option (\<lambda>st. gen_x st < len - 400) (genStep d sp jf g rng) st0 = Some st"
    by blast
  have "P st"
    by (rule while_option_rule[where P = P, OF _ st init]) (rule step)
  with st show ?thesis by blast
qed

lemma test_loop:
  assumes rng: "\<And>n. 0 \<le> rng n"
    and init: "P st0"
    and step: "\<And>st. P st \<Longrightarrow> P (testGenStep d sp jf g rng st)"
  shows "\<exists>st. while_option (\<lambda>st. gen_x st < len - 400) (testGenStep d sp jf g rng) st0 = Some st
              \<and> P st"
proof -
  have "\<exists>st. while_option (\<lambda>st. gen_x st < len - 400) (testGenStep d sp jf g rng) st0 = Some st"
  proof (rule measure_while_option_Some[where P = "\<lambda>_. True"
          and f = "\<lambda>st. nat \<lceil>(len - 400 - gen_x st) / 215\<rceil>"])
    fix st :: test_gen_state
    assume "gen_x st < len - 400"
    then show "True \<and> nat \<lceil>(len - 400 - gen_x (testGenStep d sp jf g rng st)) / 215\<rceil>
                      < nat \<lceil>(len - 400 - gen_x st) / 215\<rceil>"
      using testGenStep_x[where rng = rng, OF rng, of st d sp jf g]
        ceiling_measure_decreases[of 215 "gen_x st" "len - 400"
          "gen_x (testGenStep d sp jf g rng st)"]
      by simp
  qed simp
  then obtain st where st: "while_option (\<lambda>st. gen_x st < len - 400) (testGenStep d sp jf g rng) st0 = Some st"
    by blast
  have "P st"
    by (rule while_option_rule[where P = P, OF _ st init]) (rule step)
  with st show ?thesis by blast
qed

lemma wave_loop:
  assumes rng: "\<And>n. 0 \<le> rng n"
    and init: "P st0"
    and step: "\<And>st. P st \<Longrightarrow> P (waveStep d rng st)"
  shows "\<exists>st. while_option (\<lambda>st. gen_x st < len - 200) (waveStep d rng) st0 = Some st \<and> P st"
proof -
  have "\<exists>st. while_option (\<lambda>st. gen_x st < len - 200) (waveStep d rng) st0 = Some st"
  proof (rule measure_while_option_Some[where P = "\<lambda>_. True"
          and f = "\<lambda>st. nat \<lceil>(len - 200 - gen_x st) / 100\<rceil>"])
    fix st :: gen_state
    assume "gen_x st < len - 200"
    then show "True \<and> nat \<lceil>(len - 200 - gen_x (waveStep d rng st)) / 100\<rceil>
                      < nat \<lceil>(len - 200 - gen_x st) / 100\<rceil>"
      using waveStep_x[where rng = rng, OF rng, of st d]
        ceiling_measure_decreases[of 100 "gen_x st" "len - 200" "gen_x (waveStep d rng st)"]
      by simp
  qed simp
  then obtain st where st: "while_option (\<lambda>st. gen_x st < len - 200) (waveStep d rng) st0 = Some st"
    by blast
  have "P st"
    by (rule while_option_rule[where P = P, OF _ st init]) (rule step)
  with st show ?thesis by blast
qed

text \<open>What one pass appends.\<close>

lemma genStep_obstacles:
  "\<exists>ob. gen_obstacles (genStep d sp jf g rng st) = gen_obstacles st @ [ob]"
  by (simp add: genStep_def Let_def)

lemma genStep_windows:
  "\<exists>w. gen_jumpWindows (genStep d sp jf g rng st) = gen_jumpWindows st @ [w]"
  by (simp add: genStep_def Let_def)

lemma genStep_window_meta:
  "\<exists>w. gen_jumpWindows (genStep d sp jf g rng st) = gen_jumpWindows st @ [w] \<and> holdConsistent w"
  by (simp add: genStep_def Let_def holdConsistent_def gapJumpWindow_def)

lemma genStep_pair:
  "\<exists>ob w. gen_obstacles (genStep d sp jf g rng st) = gen_obstacles st @ [ob]
          \<and> gen_jumpWindows (genStep d sp jf g rng st) = gen_jumpWindows st @ [w]
          \<and> gapPaired ob w"
  by (simp add: genStep_def Let_def gapPaired_def gapObstacle_def solidObstacle_def)

lemma waveStep_obstacles:
  "\<exists>top bottom. gen_obstacles (waveStep d rng st) = gen_obstacles st @ [top, bottom]"
  by (simp add: waveStep_def Let_def)

lemma waveStep_windows:
  "\<exists>w. gen_jumpWindows (waveStep d rng st) = gen_jumpWindows st @ [w]"
  by (simp add: waveStep_def Let_def)

lemma waveStep_window_meta:
  "\<exists>w. gen_jumpWindows (waveStep d rng st) = gen_jumpWindows st @ [w] \<and> jw_holdDuration w = None"
  by (simp add: waveStep_def Let_def)

lemma gravity_lengths:
  assumes "\<And>n. 0 \<le> rng n"
  shows "\<exists>st. while_option (\<lambda>st. gen_x st < len - 400) (genStep d sp jf g rng) genInit = Some st
              \<and> length (gen_obstacles st) = length (gen_jumpWindows st)"
proof (rule gravity_loop[OF assms])
  show "length (gen_obstacles genInit) = length (gen_jumpWindows genInit)"
    by (simp add: genInit_def)
next
  fix st :: gen_state
  assume "length (gen_obstacles st) = length (gen_jumpWindows st)"
  then show "length (gen_obstacles (genStep d sp jf g rng st))
             = length (gen_jumpWindows (genStep d sp jf g rng st))"
    using genStep_obstacles[of d sp jf g rng st] genStep_windows[of d sp jf g rng st] by auto
qed

lemma wave_lengths:
  assumes "\<And>n. 0 \<le> rng n"
  shows "\<exists>st. while_option (\<lambda>st. gen_x st < len - 200) (waveStep d rng) genInit = Some st
              \<and> length (gen_obstacles st) = 2 * length (gen_jumpWindows st)"
proof (rule wave_loop[OF assms])
  show "length (gen_obstacles genInit) = 2 * length (gen_jumpWindows genInit)"
    by (simp add: genInit_def)
next
  fix st :: gen_state
  assume "length (gen_obstacles st) = 2 * length (gen_jumpWindows st)"
  then show "length (gen_obstacles (waveStep d rng st))
             = 2 * length (gen_jumpWindows (waveStep d rng st))"
    using waveStep_obstacles[of d rng st] waveStep_windows[of d rng st] by auto
qed

lemma gravity_meta:
  assumes "\<And>n. 0 \<le> rng n"
  shows "\<exists>st. while_option (\<lambda>st. gen_x st < len - 400) (genStep d sp jf g rng) genInit = Some st
              \<and> list_all holdConsistent (gen_jumpWindows st)"
proof (rule gravity_loop[OF assms])
  show "list_all holdConsistent (gen_jumpWindows genInit)"
    by (simp add: genInit_def)
next
  fix st :: gen_state
  assume "list_all holdConsistent (gen_jumpWindows st)"
  then show "list_all holdConsistent (gen_jumpWindows (genStep d sp jf g rng st))"
    using genStep_window_meta[of d sp jf g rng st] by auto
qed

lemma wave_meta:
  assumes "\<And>n. 0 \<le> rng n"
  shows "\<exists>st. while_option (\<lambda>st. gen_x st < len - 200) (waveStep d rng) genInit = Some st
              \<and> list_all (\<lambda>w. jw_holdDuration w = None) (gen_jumpWindows st)"
proof (rule wave_loop[OF assms])
  show "list_all (\<lambda>w. jw_holdDuration w = None) (gen_jumpWindows genInit)"
    by (simp add: genInit_def)
next
  fix st :: gen_state
  assume "list_all (\<lambda>w. jw_holdDuration w = None) (gen_jumpWindows st)"
  then show "list_all (\<lambda>w. jw_holdDuration w = None) (gen_jumpWindows (waveStep d rng st))"
    using waveStep_window_meta[of d rng st] by auto
qed

lemma gravity_gaps:
  assumes "\<And>n. 0 \<le> rng n"
  shows "\<exists>st. while_option (\<lambda>st. gen_x st < len - 400) (genStep d sp jf g rng) genInit = Some st
              \<and> list_all2 gapPaired (gen_obstacles st) (gen_jumpWindows st)"
proof (rule gravity_loop[OF assms])
  show "list_all2 gapPaired (gen_obstacles genInit) (gen_jumpWindows genInit)"
    by (simp add: genInit_def)
next
  fix st :: gen_state
  assume "list_all2 gapPaired (gen_obstacles st) (gen_jumpWindows st)"
  then show "list_all2 gapPaired (gen_obstacles (genStep d sp jf g rng st))
               (gen_jumpWindows (genStep d sp jf g rng st))"
    using genStep_pair[of d sp jf g rng st] by (auto simp: list_all2_appendI)
qed

text \<open>Concrete passes of the loops, for constant draws.\<close>

lemma level1_half_step:
  "genStep 1 192 (- 426) 670 (constRng (1 / 2)) st
   = \<lparr> gen_x = gen_x st + 513, obstacleCount = obstacleCount st + 1,
       gen_draws = gen_draws st + 3,
       gen_obstacles = gen_obstacles st @
         [\<lparr> ob_x = gen_x st, ob_y = 1, ob_width = 53, ob_height = 91 / 2, ob_type = Block,
            moveSpeed = None, moveRange = None \<rparr>],
       gen_jumpWindows = gen_jumpWindows st @
         [\<lparr> jw_startX = gen_x st - 791 / 5, jw_endX = gen_x st - 144 / 5, jw_type = Tap,
            jw_holdDuration = None \<rparr>] \<rparr>"
  by (simp add: genStep_def chooseObstacle_def constRng_def holdJumpProbability_def
      baseObstacleHeight_def obstacleHeightVariation_def minSpacing_def maxSpacing_def
      solidObstacle_def calculateClearanceWindow_def level1_block_search firstOffset_def
      lastOffset_def shrinkWindow_def clampWindow_def baseWindowWidth_def Let_def)

lemma level1_gap_step:
  "genStep 1 192 (- 426) 670 (constRng (9 / 10)) st
   = \<lparr> gen_x = gen_x st + 594, obstacleCount = obstacleCount st + 1,
       gen_draws = gen_draws st + 2,
       gen_obstacles = gen_obstacles st @
         [\<lparr> ob_x = gen_x st, ob_y = 1, ob_width = 74, ob_height = 100, ob_type = Gap,
            moveSpeed = None, moveRange = None \<rparr>],
       gen_jumpWindows = gen_jumpWindows st @
         [\<lparr> jw_startX = gen_x st - 120, jw_endX = gen_x st - 20, jw_type = Tap,
            jw_holdDuration = None \<rparr>] \<rparr>"
  by (simp add: genStep_def chooseObstacle_def constRng_def holdJumpProbability_def
      minSpacing_def maxSpacing_def gapObstacle_def gapJumpWindow_def Let_def)

lemma level1_half_output:
  "generateJumpWindowLevel 1 3400 Gravity 192 (- 426) 670 (constRng (1 / 2))
   = Some \<lparr> obstacles =
       [\<lparr> ob_x = 600, ob_y = 1, ob_width = 53, ob_height = 91 / 2, ob_type = Block,
          moveSpeed = None, moveRange = None \<rparr>,
        \<lparr> ob_x = 1113, ob_y = 1, ob_width = 53, ob_height = 91 / 2, ob_type = Block,
          moveSpeed = None, moveRange = None \<rparr>,
        \<lparr> ob_x = 1626, ob_y = 1, ob_width = 53, ob_height = 91 / 2, ob_type = Block,
          moveSpeed = None, moveRange = None \<rparr>,
        \<lparr> ob_x = 2139, ob_y = 1, ob_width = 53, ob_height = 91 / 2, ob_type = Block,
          moveSpeed = None, moveRange = None \<rparr>,
        \<lparr> ob_x = 2652, ob_y = 1, ob_width = 53, ob_height = 91 / 2, ob_type = Block,
          moveSpeed = None, moveRange = None \<rparr>],
      jumpWindows =
       [\<lparr> jw_startX = 2209 / 5, jw_endX = 2856 / 5, jw_type = Tap, jw_holdDuration = None \<rparr>,
        \<lparr> jw_startX = 4774 / 5, jw_endX = 5421 / 5, jw_type = Tap, jw_holdDuration = None \<rparr>,
        \<lparr> jw_startX = 7339 / 5, jw_endX = 7986 / 5, jw_type = Tap, jw_holdDuration = None \<rparr>,
        \<lparr> jw_startX = 9904 / 5, jw_endX = 10551 / 5, jw_type = Tap, jw_holdDuration = None \<rparr>,
        \<lparr> jw_startX = 12469 / 5, jw_endX = 13116 / 5, jw_type = Tap, jw_holdDuration = None \<rparr>] \<rparr>"
  by (simp add: generateJumpWindowLevel_def while_option_unfold level1_half_step genInit_def
      genOutput_def)

lemma level1_gap_output:
  "generateJumpWindowLevel 1 3400 Gravity 192 (- 426) 670 (constRng (9 / 10))
   = Some \<lparr> obstacles =
       [\<lparr> ob_x = 600, ob_y = 1, ob_width = 74, ob_height = 100, ob_type = Gap,
          moveSpeed = None, moveRange = None \<rparr>,
        \<lparr> ob_x = 1194, ob_y = 1, ob_width = 74, ob_height = 100, ob_type = Gap,
          moveSpeed = None, moveRange = None \<rparr>,
        \<lparr> ob_x = 1788, ob_y = 1, ob_width = 74, ob_height = 100, ob_type = Gap,
          moveSpeed = None, moveRange = None \<rparr>,
        \<lparr> ob_x = 2382, ob_y = 1, ob_width = 74, ob_height = 100, ob_type = Gap,
          moveSpeed = None, moveRange = None \<rparr>,
        \<lparr> ob_x = 2976, ob_y = 1, ob_width = 74, ob_height = 100, ob_type = Gap,
          moveSpeed = None, moveRange = None \<rparr>],
      jumpWindows =
       [\<lparr> jw_startX = 480, jw_endX = 580, jw_type = Tap, jw_holdDuration = None \<rparr>,
        \<lparr> jw_startX = 1074, jw_endX = 1174, jw_type = Tap, jw_holdDuration = None \<rparr>,
        \<lparr> jw_startX = 1668, jw_endX = 1768, jw_type = Tap, jw_holdDuration = None \<rparr>,
        \<lparr> jw_startX = 2262, jw_endX = 2362, jw_type = Tap, jw_holdDuration = None \<rparr>,
        \<lparr> jw_startX = 2856, jw_endX = 2956, jw_type = Tap, jw_holdDuration = None \<rparr>] \<rparr>"
  by (simp add: generateJumpWindowLevel_def while_option_unfold level1_gap_step genInit_def
      genOutput_def)

lemma wave2_half_step:
  "waveStep 2 (constRng (1 / 2)) st
   = \<lparr> gen_x = gen_x st + 204, obstacleCount = obstacleCount st, gen_draws = gen_draws st + 3,
       gen_obstacles = gen_obstacles st @
         [\<lparr> ob_x = gen_x st, ob_y = 0, ob_width = 59, ob_height = 47 / 200, ob_type = Block,
            moveSpeed = None, moveRange = None \<rparr>,
          \<lparr> ob_x = gen_x st, ob_y = 133 / 200, ob_width = 59, ob_height = 67 / 200,
            ob_type = Block, moveSpeed = None, moveRange = None \<rparr>],
       gen_jumpWindows = gen_jumpWindows st @
         [\<lparr> jw_startX = gen_x st - 100, jw_endX = gen_x st + 59, jw_type = Tap,
            jw_holdDuration = None \<rparr>] \<rparr>"
  by (simp add: waveStep_def constRng_def waveSpacing_def gapSize_def Let_def)

lemma wave2_quarter_step:
  "waveStep 2 (constRng (1 / 4)) st
   = \<lparr> gen_x = gen_x st + 184, obstacleCount = obstacleCount st, gen_draws = gen_draws st + 3,
       gen_obstacles = gen_obstacles st @
         [\<lparr> ob_x = gen_x st, ob_y = 0, ob_width = 59, ob_height = 3 / 25, ob_type = Block,
            moveSpeed = None, moveRange = None \<rparr>,
          \<lparr> ob_x = gen_x st, ob_y = 53 / 100, ob_width = 59, ob_height = 47 / 100,
            ob_type = Block, moveSpeed = None, moveRange = None \<rparr>],
       gen_jumpWindows = gen_jumpWindows st @
         [\<lparr> jw_startX = gen_x st - 100, jw_endX = gen_x st + 59, jw_type = Hold,
            jw_holdDuration = None \<rparr>] \<rparr>"
  by (simp add: waveStep_def constRng_def waveSpacing_def gapSize_def Let_def)

lemma heavy_half_step:
  "genStep 1 192 (- 426) 1750 (constRng (1 / 2)) st
   = \<lparr> gen_x = gen_x st + 513, obstacleCount = obstacleCount st + 1,
       gen_draws = gen_draws st + 3,
       gen_obstacles = gen_obstacles st @
         [\<lparr> ob_x = gen_x st, ob_y = 1, ob_width = 53, ob_height = 91 / 2, ob_type = Block,
            moveSpeed = None, moveRange = None \<rparr>],
       gen_jumpWindows = gen_jumpWindows st @
         [\<lparr> jw_startX = gen_x st - 656 / 5, jw_endX = gen_x st - 91, jw_type = Hold,
            jw_holdDuration = Some 500 \<rparr>] \<rparr>"
  by (simp add: genStep_def chooseObstacle_def constRng_def holdJumpProbability_def
      baseObstacleHeight_def obstacleHeightVariation_def minSpacing_def maxSpacing_def
      solidObstacle_def calculateClearanceWindow_def hold_block_search_1750 firstOffset_def
      lastOffset_def shrinkWindow_def clampWindow_def baseWindowWidth_def Let_def)

lemma heavy_half_output:
  "generateJumpWindowLevel 1 1100 Gravity 192 (- 426) 1750 (constRng (1 / 2))
   = Some \<lparr> obstacles =
       [\<lparr> ob_x = 600, ob_y = 1, ob_width = 53, ob_height = 91 / 2, ob_type = Block,
          moveSpeed = None, moveRange = None \<rparr>],
      jumpWindows =
       [\<lparr> jw_startX = 2344 / 5, jw_endX = 509, jw_type = Hold, jw_holdDuration = Some 500 \<rparr>] \<rparr>"
  by (simp add: generateJumpWindowLevel_def while_option_unfold heavy_half_step genInit_def
      genOutput_def)

text \<open>
  With the parameters of level 1 the tap jump clears every obstacle the generator can
  choose at difficulty 1, so the level module emits no hold window there, whatever the
  draws are.
\<close>

lemma level1_tap_clears:
  assumes "oh \<le> 100"
  shows "\<not> needsHold (calculateClearanceWindow ox ow oh (- 426) 670 192)"
proof -
  have "foldl peakStep PLAYER_GROUND_Y (simulateJump 0 (- 426) 670 192 0) = 67933 / 120"
    using level1_tap_scan tapScan_peak[of "1285 / 2" _ "simulateJump 0 (- 426) 670 192 0"]
    by (metis scan_state.select_convs(1))
  then have "\<exists>p \<in> set (simulateJump 0 (- 426) 670 192 0). pos_y p \<le> 67933 / 120"
    using peak_le_iff[of PLAYER_GROUND_Y "simulateJump 0 (- 426) 670 192 0" "67933 / 120"]
    by (simp add: phys_consts)
  moreover have "67933 / 120 \<le> requiredPlayerY oh"
    using assms by (simp add: requiredPlayerY_def Let_def phys_consts)
  ultimately have "\<exists>p \<in> set (simulateJump 0 (- 426) 670 192 0). pos_y p \<le> requiredPlayerY oh"
    by force
  then have "\<not> cs_needsHold (clearanceSearch oh (- 426) 670 192)"
    using needsHold_iff[of 192 oh "- 426" 670] by simp
  then show ?thesis by (simp add: calculateClearanceWindow_def Let_def)
qed

lemma level1_step_tap:
  assumes "\<And>n. 0 \<le> rng n \<and> rng n < 1"
  shows "\<exists>w. gen_jumpWindows (genStep 1 192 (- 426) 670 rng st) = gen_jumpWindows st @ [w]
             \<and> jw_type w = Tap"
proof -
  have h: "oc_height (chooseObstacle 1 rng i rand False) \<le> 100" for i rand
    using assms[of i]
    by (simp add: chooseObstacle_def baseObstacleHeight_def obstacleHeightVariation_def)
  have nh: "\<not> needsHold (calculateClearanceWindow x w
                 (oc_height (chooseObstacle 1 rng i rand False)) (- 426) 670 192)" for x w i rand
    by (intro level1_tap_clears h)
  show ?thesis
    by (simp add: genStep_def Let_def gapJumpWindow_def nh)
qed

lemma level1_never_holds:
  assumes "\<And>n. 0 \<le> rng n \<and> rng n < 1"
  shows "\<exists>lv. generateJumpWindowLevel 1 len Gravity 192 (- 426) 670 rng = Some lv
              \<and> list_all (\<lambda>w. jw_type w = Tap) (jumpWindows lv)"
proof -
  have rng: "\<And>n. 0 \<le> rng n" using assms by simp
  have "\<exists>st. while_option (\<lambda>st. gen_x st < len - 400) (genStep 1 192 (- 426) 670 rng) genInit
               = Some st \<and> list_all (\<lambda>w. jw_type w = Tap) (gen_jumpWindows st)"
  proof (rule gravity_loop[where rng = rng, OF rng])
    show "list_all (\<lambda>w. jw_type w = Tap) (gen_jumpWindows genInit)"
      by (simp add: genInit_def)
  next
    fix st :: gen_state
    assume "list_all (\<lambda>w. jw_type w = Tap) (gen_jumpWindows st)"
    then show "list_all (\<lambda>w. jw_type w = Tap)
                 (gen_jumpWindows (genStep 1 192 (- 426) 670 rng st))"
      using level1_step_tap[where rng = rng, OF assms, of st] by auto
  qed
  then show ?thesis
    by (auto simp: generateJumpWindowLevel_def genOutput_def)
qed

section \<open>Properties of the generators\<close>

text \<open>
  C1, as stated, fails in wave mode: each pass of the wave loop pushes two obstacles (top
  and bottom) and one window. Level 2 (wave mode, length 3800) with every draw equal to
  \<open>1 / 2\<close> has 30 obstacles and 15 windows.
\<close>

theorem wave_lengths_differ:
  "map_option levelLengths (generateJumpWindowLevel 2 3800 Wave 204 (- 212) 0 (constRng (1 / 2)))
   = Some (30, 15)"
  by (simp add: generateJumpWindowLevel_def generateWaveObstacles_def while_option_unfold
      wave2_half_step genInit_def genOutput_def levelLengths_def)

text \<open>
  C1, amended. Every generation returns; in gravity mode the obstacle list and the window
  list have the same length, in wave mode the obstacle list is twice as long as the
  window list.
\<close>

theorem level_lengths:
  assumes "\<And>n. 0 \<le> rng n \<and> rng n < 1"
  shows "\<exists>lv. generateJumpWindowLevel d len mode sp jf g rng = Some lv
              \<and> length (obstacles lv) = obstaclesPerWindow mode * length (jumpWindows lv)"
proof (cases mode)
  case Gravity
  then show ?thesis
    using gravity_lengths[of rng len d sp jf g] assms
    by (auto simp: generateJumpWindowLevel_def obstaclesPerWindow_def genOutput_def)
next
  case Wave
  then show ?thesis
    using wave_lengths[of rng len d] assms
    by (auto simp: generateJumpWindowLevel_def generateWaveObstacles_def obstaclesPerWindow_def
        genOutput_def)
qed

theorem level_lengths_witness:
  "map_option levelLengths
     (generateJumpWindowLevel 1 3400 Gravity 192 (- 426) 670 (constRng (1 / 2))) = Some (5, 5)
   \<and> (\<exists>lv. generateJumpWindowLevel 2 3800 Wave 204 (- 212) 0 (constRng (1 / 2)) = Some lv
           \<and> length (obstacles lv) = 2 * length (jumpWindows lv))"
proof -
  have rng: "\<And>n. 0 \<le> constRng (1 / 2) n \<and> constRng (1 / 2) n < 1"
    by (simp add: constRng_def)
  show ?thesis
    using level_lengths[where rng = "constRng (1 / 2)", OF rng, of 2 3800 Wave 204 "- 212" 0]
      level_lengths[where rng = "constRng (1 / 2)", OF rng, of 1 3400 Gravity 192 "- 426" 670]
    by (simp add: obstaclesPerWindow_def level1_half_output levelLengths_def)
qed

text \<open>
  C2, as stated, fails in wave mode: the wave generator never sets \<open>holdDuration\<close>, also
  on the windows it tags hold. With every draw equal to \<open>1 / 4\<close> the gap lies high
  (\<open>gapY = 0.325 < 0.4\<close>) and the window is a hold window without a duration.
\<close>

theorem wave_hold_without_duration:
  "map_option jumpWindows (generateJumpWindowLevel 2 900 Wave 204 (- 212) 0 (constRng (1 / 4)))
   = Some [\<lparr> jw_startX = 500, jw_endX = 659, jw_type = Hold, jw_holdDuration = None \<rparr>]"
  by (simp add: generateJumpWindowLevel_def generateWaveObstacles_def while_option_unfold
      wave2_quarter_step genInit_def genOutput_def)

text \<open>
  C2, amended. In gravity mode every emitted window has a \<open>holdDuration\<close> exactly when it
  is tagged hold; in wave mode no emitted window has a \<open>holdDuration\<close>, whatever its tag.
\<close>

theorem hold_metadata:
  assumes "\<And>n. 0 \<le> rng n \<and> rng n < 1"
  shows "\<exists>lv. generateJumpWindowLevel d len mode sp jf g rng = Some lv
              \<and> list_all (windowMeta mode) (jumpWindows lv)"
proof (cases mode)
  case Gravity
  then have "windowMeta mode = holdConsistent" by (auto simp: windowMeta_def)
  with Gravity show ?thesis
    using gravity_meta[of rng len d sp jf g] assms
    by (auto simp: generateJumpWindowLevel_def genOutput_def)
next
  case Wave
  then have "windowMeta mode = (\<lambda>w. jw_holdDuration w = None)" by (auto simp: windowMeta_def)
  with Wave show ?thesis
    using wave_meta[of rng len d] assms
    by (auto simp: generateJumpWindowLevel_def generateWaveObstacles_def genOutput_def)
qed

theorem hold_metadata_witness:
  "map_option jumpWindows
     (generateJumpWindowLevel 1 1100 Gravity 192 (- 426) 1750 (constRng (1 / 2)))
     = Some [\<lparr> jw_startX = 2344 / 5, jw_endX = 509, jw_type = Hold,
              jw_holdDuration = Some 500 \<rparr>]
   \<and> holdConsistent \<lparr> jw_startX = 2344 / 5, jw_endX = 509, jw_type = Hold,
                      jw_holdDuration = Some 500 \<rparr>
   \<and> map_option jumpWindows
       (generateJumpWindowLevel 2 900 Wave 204 (- 212) 0 (constRng (1 / 4)))
     = Some [\<lparr> jw_startX = 500, jw_endX = 659, jw_type = Hold, jw_holdDuration = None \<rparr>]
   \<and> windowMeta Wave
       \<lparr> jw_startX = 500, jw_endX = 659, jw_type = Hold, jw_holdDuration = None \<rparr>"
proof -
  have rng: "\<And>n. 0 \<le> constRng r n \<and> constRng r n < 1" if "0 \<le> r" "r < 1" for r
    using that by (simp add: constRng_def)
  have wave: "map_option jumpWindows
       (generateJumpWindowLevel 2 900 Wave 204 (- 212) 0 (constRng (1 / 4)))
     = Some [\<lparr> jw_startX = 500, jw_endX = 659, jw_type = Hold, jw_holdDuration = None \<rparr>]"
    by (simp add: generateJumpWindowLevel_def generateWaveObstacles_def while_option_unfold
      wave2_quarter_step genInit_def genOutput_def)
  show ?thesis
    using
      hold_metadata[where rng = "constRng (1 / 2)", OF rng, of 1 1100 Gravity 192 "- 426" 1750]
      hold_metadata[where rng = "constRng (1 / 4)", OF rng, of 2 900 Wave 204 "- 212" 0]
      wave
    by (auto simp: windowMeta_def heavy_half_output)
qed

text \<open>
  C5. In every level of the gravity generator, at any difficulty, the window paired with a
  gap obstacle is the fixed \<open>[x - 120, x - 20]\<close> of the obstacle's \<open>x\<close>, tagged tap and
  without a duration: a function of \<open>x\<close> alone, in which the solver's result does not
  occur. For a gap at \<open>x = 1000\<close> it is \<open>[880, 980]\<close>.
\<close>

theorem gap_windows_heuristic:
  assumes "\<And>n. 0 \<le> rng n \<and> rng n < 1"
  shows "(\<exists>lv. generateJumpWindowLevel d len Gravity sp jf g rng = Some lv
               \<and> list_all2 gapPaired (obstacles lv) (jumpWindows lv))
         \<and> gapJumpWindow 1000
           = \<lparr> jw_startX = 880, jw_endX = 980, jw_type = Tap, jw_holdDuration = None \<rparr>"
  using gravity_gaps[of rng len d sp jf g] assms
  by (auto simp: generateJumpWindowLevel_def genOutput_def gapJumpWindow_def)

theorem gap_windows_heuristic_witness:
  "\<exists>lv. generateJumpWindowLevel 1 3400 Gravity 192 (- 426) 670 (constRng (9 / 10)) = Some lv
        \<and> map ob_type (obstacles lv) = [Gap, Gap, Gap, Gap, Gap]
        \<and> list_all2 gapPaired (obstacles lv) (jumpWindows lv)
        \<and> jumpWindows lv ! 0
          = \<lparr> jw_startX = 480, jw_endX = 580, jw_type = Tap, jw_holdDuration = None \<rparr>"
proof -
  have rng: "\<And>n. 0 \<le> constRng (9 / 10) n \<and> constRng (9 / 10) n < 1"
    by (simp add: constRng_def)
  show ?thesis
    using
      gap_windows_heuristic[where rng = "constRng (9 / 10)", OF rng, of 1 3400 192 "- 426" 670]
    by (auto simp: level1_gap_output)
qed

section \<open>The forced held jump of difficulty 1\<close>

lemma testGenStep_level1:
  "obstacleCount (testGenStep 1 sp jf g rng st) = obstacleCount st + 1
   \<and> hasHadHeldJump (testGenStep 1 sp jf g rng st)
       = (hasHadHeldJump st \<or> 2 \<le> obstacleCount st)
   \<and> (\<exists>w. gen_jumpWindows (testGenStep 1 sp jf g rng st) = gen_jumpWindows st @ [w]
          \<and> (if \<not> hasHadHeldJump st \<and> 2 \<le> obstacleCount st then jw_type w = Hold else True))"
  by (auto simp: testGenStep_def Let_def chooseObstacle_def)

lemma forcedHoldInv_step:
  assumes "forcedHoldInv st"
  shows "forcedHoldInv (testGenStep 1 sp jf g rng st)"
proof -
  from testGenStep_level1[of sp jf g rng st] obtain w where
    cnt: "obstacleCount (testGenStep 1 sp jf g rng st) = obstacleCount st + 1"
    and had: "hasHadHeldJump (testGenStep 1 sp jf g rng st)
              = (hasHadHeldJump st \<or> 2 \<le> obstacleCount st)"
    and wins: "gen_jumpWindows (testGenStep 1 sp jf g rng st) = gen_jumpWindows st @ [w]"
    and w: "if \<not> hasHadHeldJump st \<and> 2 \<le> obstacleCount st then jw_type w = Hold else True"
    by blast
  from assms have len: "length (gen_jumpWindows st) = obstacleCount st"
    and h: "hasHadHeldJump st = (3 \<le> obstacleCount st)"
    and third: "3 \<le> obstacleCount st \<Longrightarrow> jw_type (gen_jumpWindows st ! 2) = Hold"
    by (simp_all add: forcedHoldInv_def split: if_splits)
  have "jw_type ((gen_jumpWindows st @ [w]) ! 2) = Hold" if "3 \<le> obstacleCount st + 1"
  proof (cases "3 \<le> obstacleCount st")
    case True
    then show ?thesis using third len by (simp add: nth_append)
  next
    case False
    with that have two: "obstacleCount st = 2" by simp
    with h w have "jw_type w = Hold" by simp
    with two len show ?thesis by (simp add: nth_append)
  qed
  then show ?thesis
    using cnt had wins len h by (auto simp: forcedHoldInv_def)
qed

lemma test_copy_forces_hold:
  assumes "\<And>n. 0 \<le> rng n \<and> rng n < 1"
  shows "\<exists>lv. test_generateJumpWindowLevel 1 len sp jf g rng = Some lv
              \<and> (if 3 \<le> length (jumpWindows lv) then jw_type (jumpWindows lv ! 2) = Hold
                  else True)"
proof -
  have rng: "\<And>n. 0 \<le> rng n" using assms by simp
  have "\<exists>st. while_option (\<lambda>st. gen_x st < len - 400) (testGenStep 1 sp jf g rng) testGenInit
               = Some st \<and> forcedHoldInv st"
  proof (rule test_loop[where rng = rng, OF rng])
    show "forcedHoldInv testGenInit" by (simp add: forcedHoldInv_def testGenInit_def)
  qed (rule forcedHoldInv_step)
  then show ?thesis
    by (auto simp: test_generateJumpWindowLevel_def testGenOutput_def forcedHoldInv_def)
qed

text \<open>
  C3. The level module's generator has no forced held jump: \<open>isHoldJump\<close> needs
  \<open>difficulty >= 3\<close>, and a window is tagged hold only when the solver asks for it. Level 1
  (difficulty 1, length 3400, speed 192, jump force \<open>- 426\<close>, gravity 670) with every draw
  equal to \<open>1 / 2\<close> has five obstacles and five tap windows, none of them hold. The copy of
  the generator in the test scripts does force the third obstacle
  (\<open>test_copy_forces_hold\<close>). With these parameters the level module emits no hold window
  for any draws (\<open>level1_never_holds\<close>).
\<close>

theorem level1_has_no_hold_window:
  "map_option (map jw_type \<circ> jumpWindows)
     (generateJumpWindowLevel 1 3400 Gravity 192 (- 426) 670 (constRng (1 / 2)))
   = Some [Tap, Tap, Tap, Tap, Tap]"
  by (simp add: level1_half_output)

end
